theory Spec2Isabelle
  imports Complex_Main "HOL-Library.Multiset"
begin

section \<open>Data model\<close>

text \<open>
  The two programs of the repository share one record shape: the dictionary with the keys
  \<^verbatim>\<open>disease\<close>, \<^verbatim>\<open>symptoms\<close>, \<^verbatim>\<open>medicines\<close> and \<^verbatim>\<open>precautions\<close> that
  \<^verbatim>\<open>parse_health_file\<close> builds, \<^verbatim>\<open>create_knowledge_base\<close> copies into the metadata
  table and \<^verbatim>\<open>HealthcareDiagnoser\<close> reads back. Python strings are modelled as
  \<^typ>\<open>string\<close> with one \<^typ>\<open>char\<close> per code point, which covers the code points 0 to
  255 (Latin-1). A floating-point number is the real number it stands for; the arithmetic
  the programs do on such numbers rounds as single precision does.
\<close>

type_synonym vec = "real list"

record disease_meta =
  disease :: string
  symptoms :: "string list"
  medicines :: "string list"
  precautions :: "string list"

text \<open>The exceptions the modelled code paths can raise.\<close>

datatype py_error =
  FileNotFoundError | RuntimeError | UnpicklingError | IndexError | AssertionError | Exception

text \<open>The dictionary appended to \<^verbatim>\<open>results\<close> by \<^verbatim>\<open>search_similar_diseases\<close>.\<close>

record hit =
  h_disease :: string
  h_symptoms :: "string list"
  h_confidence :: real
  h_distance :: real

text \<open>The dictionary appended to \<^verbatim>\<open>final_diagnoses\<close> by \<^verbatim>\<open>diagnose\<close>.\<close>

record diagnosis =
  dx_disease :: string
  dx_symptoms :: "string list"
  dx_medicines :: "string list"
  dx_precautions :: "string list"
  dx_confidence :: real

section \<open>The flat L2 index of FAISS\<close>

text \<open>
  \<^verbatim>\<open>faiss.IndexFlatL2\<close> is a library object, not code of the repository. It is modelled by
  its documented behaviour: the index stores vectors of one dimension \<^verbatim>\<open>d\<close> in insertion
  order; \<^verbatim>\<open>search(x, k)\<close> asserts that the query has dimension \<^verbatim>\<open>d\<close> and that \<^verbatim>\<open>k > 0\<close>,
  and returns exactly \<^verbatim>\<open>k\<close> result slots, nearest first by squared Euclidean distance;
  when fewer than \<^verbatim>\<open>k\<close> vectors are stored, the remaining slots carry the label \<^verbatim>\<open>-1\<close>
  and the largest finite single-precision number as distance. The squared distance is
  taken exactly; the rounding inside the library's own summation is not modelled.
\<close>

record faiss_index =
  ix_d :: nat
  ix_xb :: "vec list"

definition ntotal :: "faiss_index \<Rightarrow> nat" where
  "ntotal ix = length (ix_xb ix)"

definition fvec_L2sqr :: "vec \<Rightarrow> vec \<Rightarrow> real" where
  "fvec_L2sqr x y = sum_list (map (\<lambda>(a, b). (a - b) * (a - b)) (zip x y))"

definition FLT_MAX :: real where
  "FLT_MAX = 340282346638528859811704183484516925440"

definition index_search :: "faiss_index \<Rightarrow> vec \<Rightarrow> nat \<Rightarrow> py_error + (real \<times> int) list" where
  "index_search ix x k =
     (if length x \<noteq> ix_d ix \<or> k = 0 then Inl AssertionError
      else
        let scored = zip (map (fvec_L2sqr x) (ix_xb ix)) (map int [0..<length (ix_xb ix)]);
            nearest = take k (sort_key fst scored)
        in Inr (nearest @ replicate (k - length nearest) (FLT_MAX, - 1)))"

section \<open>Single-precision arithmetic\<close>

text \<open>
  Line 51 of \<^verbatim>\<open>diagnosis.py\<close> computes \<^verbatim>\<open>max(0, 100 - (distances[0][i] * 20))\<close> on a
  NumPy \<^verbatim>\<open>float32\<close> scalar; combined with a Python integer the result stays
  \<^verbatim>\<open>float32\<close>, so the product and the difference are each rounded to single precision
  (IEEE 754 binary32: 24 significant bits, smallest spacing \<^verbatim>\<open>2**-149\<close>, round to
  nearest, ties to even, overflow to an infinity from \<^verbatim>\<open>2**128 - 2**103\<close> on).
\<close>

definition round_half_even :: "real \<Rightarrow> int" where
  "round_half_even q =
     (let f = \<lfloor>q\<rfloor>; r = q - of_int f
      in if r < 1 / 2 then f else if 1 / 2 < r then f + 1 else if even f then f else f + 1)"

text \<open>
  The spacing of the floats around a magnitude \<open>a\<close>: the smallest \<open>u\<close> among the powers
  of two from \<^verbatim>\<open>2**-149\<close> to \<^verbatim>\<open>2**104\<close> with \<open>a < 2 ^ 24 * u\<close>, found by doubling.
\<close>

fun ulp_search :: "nat \<Rightarrow> real \<Rightarrow> real \<Rightarrow> real" where
  "ulp_search 0 u a = u"
| "ulp_search (Suc n) u a = (if a < 16777216 * u then u else ulp_search n (2 * u) a)"

definition float32_min_ulp :: real where
  "float32_min_ulp = 1 / 2 ^ 149"

definition float32_ulp :: "real \<Rightarrow> real" where
  "float32_ulp a = ulp_search 253 float32_min_ulp a"

definition float32_round :: "real \<Rightarrow> real" where
  "float32_round x = (let u = float32_ulp \<bar>x\<bar> in u * of_int (round_half_even (x / u)))"

datatype float32 = Finite real | PosInf | NegInf

definition float32_of :: "real \<Rightarrow> float32" where
  "float32_of x =
     (if 2 ^ 128 - 2 ^ 103 \<le> x then PosInf
      else if x \<le> - (2 ^ 128 - 2 ^ 103) then NegInf
      else Finite (float32_round x))"

text \<open>\<^verbatim>\<open>x * 20\<close> and \<^verbatim>\<open>100 - y\<close>, the integer operand converted exactly.\<close>

definition float32_mul :: "real \<Rightarrow> real \<Rightarrow> float32" where
  "float32_mul a b = float32_of (a * b)"

definition float32_rsub :: "real \<Rightarrow> float32 \<Rightarrow> float32" where
  "float32_rsub a y =
     (case y of Finite b \<Rightarrow> float32_of (a - b) | PosInf \<Rightarrow> NegInf | NegInf \<Rightarrow> PosInf)"

text \<open>
  \<^verbatim>\<open>max(0, z)\<close>. The confidence is kept as a real number. A positive infinity arises
  only from a negative distance so large that the product overflows, which an L2 index
  does not return (lemmas \<open>index_search_nonneg\<close> and \<open>confidence_finite\<close> below); there
  the largest float stands for it.
\<close>

definition py_max_zero :: "float32 \<Rightarrow> real" where
  "py_max_zero z = (case z of Finite v \<Rightarrow> max 0 v | NegInf \<Rightarrow> 0 | PosInf \<Rightarrow> FLT_MAX)"

abbreviation confidence :: "real \<Rightarrow> real" where
  "confidence distance \<equiv> py_max_zero (float32_rsub 100 (float32_mul distance 20))"

section \<open>diagnosis.py: the diagnoser\<close>

text \<open>
  The state of a \<^verbatim>\<open>HealthcareDiagnoser\<close> after \<^verbatim>\<open>load_faiss_index\<close>. The sentence
  embedder is an external model; the functions below take the query embedding it returns
  in place of the query text.
\<close>

record diagnoser =
  self_index :: faiss_index
  self_documents :: "string list"
  self_metadata :: "disease_meta list"

text \<open>
  List subscription \<^verbatim>\<open>self.metadata[idx]\<close>: positions \<open>0\<close> to \<open>len - 1\<close> read
  from the front, positions \<open>-len\<close> to \<open>-1\<close> read from the back, any other position
  raises \<^verbatim>\<open>IndexError\<close>.
\<close>

definition py_getitem :: "'a list \<Rightarrow> int \<Rightarrow> py_error + 'a" where
  "py_getitem xs i =
     (if 0 \<le> i \<and> i < int (length xs) then Inr (xs ! nat i)
      else if i < 0 \<and> - int (length xs) \<le> i then Inr (xs ! nat (int (length xs) + i))
      else Inl IndexError)"

text \<open>
  Python's \<^verbatim>\<open>str.lower\<close> on the code points 0 to 255: the letters \<open>A\<close> to \<open>Z\<close>
  (65 to 90) and the accented capitals 192 to 222, the multiplication sign 215 apart, move
  up by 32; every other code point of the range is its own lower case.
\<close>

definition lower_char :: "char \<Rightarrow> char" where
  "lower_char c =
     (let n = (of_char c :: nat)
      in if (65 \<le> n \<and> n \<le> 90) \<or> (192 \<le> n \<and> n \<le> 222 \<and> n \<noteq> 215)
         then char_of (n + 32) else c)"

definition lower :: "string \<Rightarrow> string" where
  "lower s = map lower_char s"

definition get_complete_disease_info :: "disease_meta list \<Rightarrow> string \<Rightarrow> disease_meta option" where
  "get_complete_disease_info md disease_name =
     find (\<lambda>meta. lower (disease meta) = lower disease_name) md"

text \<open>
  The loop of \<^verbatim>\<open>search_similar_diseases\<close> over the result slots; \<^verbatim>\<open>results\<close> is the
  list built so far.
\<close>

fun collect_results :: "disease_meta list \<Rightarrow> (real \<times> int) list \<Rightarrow> hit list \<Rightarrow> py_error + hit list" where
  "collect_results md [] results = Inr results"
| "collect_results md ((distance, idx) # rest) results =
     (if idx < int (length md) then
        (case py_getitem md idx of
           Inl e \<Rightarrow> Inl e
         | Inr disease_meta \<Rightarrow>
             collect_results md rest
               (results @ [\<lparr>h_disease = disease disease_meta,
                            h_symptoms = symptoms disease_meta,
                            h_confidence = py_max_zero (float32_rsub 100 (float32_mul distance 20)),
                            h_distance = distance\<rparr>]))
      else collect_results md rest results)"

definition search_similar_diseases :: "diagnoser \<Rightarrow> vec \<Rightarrow> nat \<Rightarrow> py_error + hit list" where
  "search_similar_diseases self query_embedding top_k =
     (case index_search (self_index self) query_embedding top_k of
        Inl e \<Rightarrow> Inl e
      | Inr slots \<Rightarrow> collect_results (self_metadata self) slots [])"

text \<open>
  \<^verbatim>\<open>unique_diseases\<close> is a Python dictionary: insertion-ordered, and an assignment to a
  key already present replaces the value in place. It is modelled as an association list.
\<close>

fun dict_set :: "(string \<times> hit) list \<Rightarrow> string \<Rightarrow> hit \<Rightarrow> (string \<times> hit) list" where
  "dict_set [] k v = [(k, v)]"
| "dict_set ((k', v') # rest) k v =
     (if k' = k then (k, v) # rest else (k', v') # dict_set rest k v)"

definition dedup_step :: "hit \<Rightarrow> (string \<times> hit) list \<Rightarrow> (string \<times> hit) list" where
  "dedup_step disease_info unique_diseases =
     (let disease_name = h_disease disease_info in
      case map_of unique_diseases disease_name of
        None \<Rightarrow> dict_set unique_diseases disease_name disease_info
      | Some old \<Rightarrow>
          if h_confidence disease_info > h_confidence old
          then dict_set unique_diseases disease_name disease_info
          else unique_diseases)"

definition unique_diseases :: "hit list \<Rightarrow> (string \<times> hit) list" where
  "unique_diseases similar_diseases = fold dedup_step similar_diseases []"

text \<open>
  \<^verbatim>\<open>sorted(..., key=confidence, reverse=True)\<close>: Python's sort is stable, also with
  \<^verbatim>\<open>reverse=True\<close>; this is the stable insertion sort on the negated key.
\<close>

definition sorted_diseases :: "(string \<times> hit) list \<Rightarrow> hit list" where
  "sorted_diseases u = sort_key (\<lambda>x. - h_confidence x) (map snd u)"

fun final_diagnoses :: "disease_meta list \<Rightarrow> hit list \<Rightarrow> diagnosis list" where
  "final_diagnoses md [] = []"
| "final_diagnoses md (disease_info # rest) =
     (case get_complete_disease_info md (h_disease disease_info) of
        None \<Rightarrow> final_diagnoses md rest
      | Some complete_info \<Rightarrow>
          \<lparr>dx_disease = disease complete_info,
           dx_symptoms = symptoms complete_info,
           dx_medicines = medicines complete_info,
           dx_precautions = precautions complete_info,
           dx_confidence = min 95 (h_confidence disease_info)\<rparr>
          # final_diagnoses md rest)"

definition diagnose :: "diagnoser \<Rightarrow> vec \<Rightarrow> nat \<Rightarrow> py_error + diagnosis list" where
  "diagnose self query_embedding top_k =
     (case search_similar_diseases self query_embedding top_k of
        Inl e \<Rightarrow> Inl e
      | Inr similar_diseases \<Rightarrow>
          Inr (final_diagnoses (self_metadata self)
                 (take 3 (sorted_diseases (unique_diseases similar_diseases)))))"

text \<open>
  The persisted store: the folder \<^verbatim>\<open>faiss_index\<close> and its three files
  \<^verbatim>\<open>index.faiss\<close>, \<^verbatim>\<open>docs.pkl\<close> and \<^verbatim>\<open>metadata.pkl\<close>. A file is missing, or
  it is there but cannot be read back (truncated, or not written by the matching writer),
  or it stores a table.
\<close>

datatype 'a artifact = Missing | Unreadable | Stored 'a

record store =
  folder_exists :: bool
  index_file :: "faiss_index artifact"
  docs_file :: "string list artifact"
  metadata_file :: "disease_meta list artifact"

text \<open>
  \<^verbatim>\<open>load_faiss_index\<close>: the folder test raises \<^verbatim>\<open>FileNotFoundError\<close>;
  \<^verbatim>\<open>faiss.read_index\<close> raises \<^verbatim>\<open>RuntimeError\<close> on a file it cannot open or cannot
  decode; each \<^verbatim>\<open>open\<close> raises \<^verbatim>\<open>FileNotFoundError\<close> on a missing file, and
  \<^verbatim>\<open>pickle.load\<close> raises on one it cannot decode (\<^verbatim>\<open>UnpicklingError\<close> stands for
  the exceptions of the unpickler). The files are read in the order vectors, documents,
  metadata, and nothing else is checked before the three tables are stored in the object.
\<close>

definition load_faiss_index :: "store \<Rightarrow> py_error + diagnoser" where
  "load_faiss_index st =
     (if \<not> folder_exists st then Inl FileNotFoundError
      else case index_file st of
        Missing \<Rightarrow> Inl RuntimeError
      | Unreadable \<Rightarrow> Inl RuntimeError
      | Stored ix \<Rightarrow>
          (case docs_file st of
             Missing \<Rightarrow> Inl FileNotFoundError
           | Unreadable \<Rightarrow> Inl UnpicklingError
           | Stored docs \<Rightarrow>
               (case metadata_file st of
                  Missing \<Rightarrow> Inl FileNotFoundError
                | Unreadable \<Rightarrow> Inl UnpicklingError
                | Stored md \<Rightarrow>
                    Inr \<lparr>self_index = ix, self_documents = docs, self_metadata = md\<rparr>)))"

section \<open>create\_faiss.py: the index builder\<close>

text \<open>
  What \<^verbatim>\<open>data/health.json\<close> can be: absent, not JSON, JSON without a
  \<^verbatim>\<open>diseases\<close> array, or JSON with one. An entry of the array is read with
  \<^verbatim>\<open>.get\<close> and its defaults, which gives the four fields below.
\<close>

record raw_entry =
  e_name :: string
  e_symptoms :: "string list"
  e_medicines :: "string list"
  e_precautions :: "string list"

datatype health_file = FileMissing | InvalidJson | NoDiseasesArray | Diseases "raw_entry list"

fun check_file :: "health_file \<Rightarrow> bool" where
  "check_file FileMissing = False"
| "check_file InvalidJson = False"
| "check_file NoDiseasesArray = False"
| "check_file (Diseases entries) = True"

text \<open>
  Python's \<^verbatim>\<open>str.strip\<close>: the whitespace among the code points 0 to 255 is 9 to 13,
  28 to 32, 133 (next line) and 160 (no-break space).
\<close>

definition is_space :: "char \<Rightarrow> bool" where
  "is_space c =
     (let n = (of_char c :: nat)
      in (9 \<le> n \<and> n \<le> 13) \<or> (28 \<le> n \<and> n \<le> 32) \<or> n = 133 \<or> n = 160)"

definition strip :: "string \<Rightarrow> string" where
  "strip s = rev (dropWhile is_space (rev (dropWhile is_space s)))"

fun parse_entries :: "raw_entry list \<Rightarrow> disease_meta list \<Rightarrow> disease_meta list" where
  "parse_entries [] diseases = diseases"
| "parse_entries (disease_info # rest) diseases =
     (let name = strip (e_name disease_info) in
      if name \<noteq> [] then
        parse_entries rest
          (diseases @ [\<lparr>disease = name,
                        symptoms = e_symptoms disease_info,
                        medicines = e_medicines disease_info,
                        precautions = e_precautions disease_info\<rparr>])
      else parse_entries rest diseases)"

fun parse_health_file :: "health_file \<Rightarrow> disease_meta list" where
  "parse_health_file (Diseases entries) = parse_entries entries []"
| "parse_health_file FileMissing = []"
| "parse_health_file InvalidJson = []"
| "parse_health_file NoDiseasesArray = []"

text \<open>Python's \<^verbatim>\<open>sep.join(xs)\<close>.\<close>

fun join :: "string \<Rightarrow> string list \<Rightarrow> string" where
  "join sep [] = []"
| "join sep [x] = x"
| "join sep (x # y # ys) = x @ sep @ join sep (y # ys)"

text \<open>The four document variations of one disease, as the f-strings build them.\<close>

definition comprehensive_doc :: "disease_meta \<Rightarrow> string" where
  "comprehensive_doc r =
     (let doc_parts = [''DISEASE: '' @ disease r];
          doc_parts = (if symptoms r \<noteq> []
                       then doc_parts @ [''SYMPTOMS: '' @ join '', '' (symptoms r)]
                       else doc_parts);
          doc_parts = (if medicines r \<noteq> []
                       then doc_parts @ [''MEDICINES: '' @ join '', '' (medicines r)]
                       else doc_parts);
          doc_parts = (if precautions r \<noteq> []
                       then doc_parts @ [''PRECAUTIONS: '' @ join '', '' (precautions r)]
                       else doc_parts)
      in join ''. '' doc_parts @ ''.'')"

definition symptoms_doc :: "disease_meta \<Rightarrow> string" where
  "symptoms_doc r =
     disease r @ '' SYMPTOMS: '' @ join '', '' (symptoms r)
       @ ''. Common signs include '' @ join '', '' (take 3 (symptoms r)) @ ''.''"

definition treatment_doc :: "disease_meta \<Rightarrow> string" where
  "treatment_doc r =
     disease r @ '' TREATMENT: Medications include '' @ join '', '' (take 3 (medicines r))
       @ ''. '' @ join '', '' (take 2 (medicines r)) @ '' are commonly prescribed.''"

definition prevention_doc :: "disease_meta \<Rightarrow> string" where
  "prevention_doc r =
     disease r @ '' PREVENTION: '' @ join '', '' (take 3 (precautions r))
       @ ''. Recommended precautions: '' @ join '', '' (take 2 (precautions r)) @ ''.''"

definition doc_variations :: "disease_meta \<Rightarrow> string list" where
  "doc_variations r =
     (let dv = [];
          dv = dv @ [comprehensive_doc r];
          dv = (if symptoms r \<noteq> [] then dv @ [symptoms_doc r] else dv);
          dv = (if medicines r \<noteq> [] then dv @ [treatment_doc r] else dv);
          dv = (if precautions r \<noteq> [] then dv @ [prevention_doc r] else dv)
      in dv)"

text \<open>
  The inner loop of \<^verbatim>\<open>create_knowledge_base\<close> appends one document and one metadata
  dictionary per variation; the outer loop runs it for every parsed disease.
\<close>

definition add_variation :: "disease_meta \<Rightarrow> string \<Rightarrow> string list \<times> disease_meta list \<Rightarrow> string list \<times> disease_meta list" where
  "add_variation disease_info doc tables =
     (fst tables @ [doc],
      snd tables @ [\<lparr>disease = disease disease_info,
                     symptoms = symptoms disease_info,
                     medicines = medicines disease_info,
                     precautions = precautions disease_info\<rparr>])"

definition add_disease :: "disease_meta \<Rightarrow> string list \<times> disease_meta list \<Rightarrow> string list \<times> disease_meta list" where
  "add_disease disease_info tables =
     fold (add_variation disease_info) (doc_variations disease_info) tables"

definition create_knowledge_base :: "health_file \<Rightarrow> py_error + (string list \<times> disease_meta list)" where
  "create_knowledge_base hf =
     (if \<not> check_file hf then Inl Exception
      else
        let disease_data = parse_health_file hf in
        if disease_data = [] then Inr ([], [])
        else Inr (fold add_disease disease_data ([], [])))"

text \<open>
  The sentence-transformer model is external: \<open>model_loads\<close> tells whether its
  constructor returns, \<open>embed\<close> gives the embedding of one text, \<open>None\<close> when encoding
  raises. \<^verbatim>\<open>encode\<close> embeds a batch, one row per text.
\<close>

record embedder =
  model_loads :: bool
  embed :: "string \<Rightarrow> vec option"

fun encode :: "embedder \<Rightarrow> string list \<Rightarrow> vec list option" where
  "encode e [] = Some []"
| "encode e (t # ts) =
     (case embed e t of
        None \<Rightarrow> None
      | Some v \<Rightarrow> (case encode e ts of None \<Rightarrow> None | Some vs \<Rightarrow> Some (v # vs)))"

text \<open>
  \<^verbatim>\<open>create_faiss_index\<close> returns \<^verbatim>\<open>True\<close> or \<^verbatim>\<open>False\<close>; the exception of
  \<^verbatim>\<open>create_knowledge_base\<close> is not caught. The result carries the store after the call.
  The rows of a NumPy array have one length, \<^verbatim>\<open>shape[1]\<close>; a ragged batch is taken as
  a failure of the index construction.
\<close>

definition create_faiss_index :: "embedder \<Rightarrow> health_file \<Rightarrow> store \<Rightarrow> py_error + (bool \<times> store)" where
  "create_faiss_index e hf st =
     (case create_knowledge_base hf of
        Inl err \<Rightarrow> Inl err
      | Inr (documents, metadata) \<Rightarrow>
          if documents = [] then Inr (False, st)
          else if \<not> model_loads e then Inr (False, st)
          else
            (case encode e documents of
               None \<Rightarrow> Inr (False, st)
             | Some embeddings \<Rightarrow>
                 (case embeddings of
                    [] \<Rightarrow> Inr (False, st)
                  | row # rows \<Rightarrow>
                      let dimension = length row in
                      if \<exists>v \<in> set embeddings. length v \<noteq> dimension then Inr (False, st)
                      else
                        Inr (True,
                             \<lparr>folder_exists = True,
                              index_file = Stored \<lparr>ix_d = dimension, ix_xb = embeddings\<rparr>,
                              docs_file = Stored documents,
                              metadata_file = Stored metadata\<rparr>))))"

section \<open>Invariant of the deduplication loop\<close>

definition dedup_inv :: "hit list \<Rightarrow> (string \<rightharpoonup> hit) \<Rightarrow> bool" where
  "dedup_inv hs m \<longleftrightarrow>
     (\<forall>h \<in> set hs. m (h_disease h) \<noteq> None) \<and>
     (\<forall>name h. m name = Some h \<longrightarrow> h \<in> set hs \<and> h_disease h = name \<and>
        (\<forall>h' \<in> set hs. h_disease h' = name \<longrightarrow> h_confidence h' \<le> h_confidence h))"

section \<open>Example data\<close>

text \<open>The two records of the end-to-end example, a small loaded diagnoser and some hits.\<close>

definition ex_flu :: disease_meta where
  "ex_flu = \<lparr>disease = ''Flu'', symptoms = [''fever'', ''cough''],
             medicines = [''Paracetamol''], precautions = [''Rest'']\<rparr>"

definition ex_migraine :: disease_meta where
  "ex_migraine = \<lparr>disease = ''Migraine'', symptoms = [''headache'', ''nausea''],
                  medicines = [], precautions = [''Avoid light'']\<rparr>"

definition ex_diagnoser :: diagnoser where
  "ex_diagnoser = \<lparr>self_index = \<lparr>ix_d = 2, ix_xb = [[1, 0], [0, 2]]\<rparr>,
                   self_documents = [''DISEASE: Flu.'', ''DISEASE: Migraine.''],
                   self_metadata = [ex_flu, ex_migraine]\<rparr>"

definition ex_hit :: "string \<Rightarrow> real \<Rightarrow> hit" where
  "ex_hit n c = \<lparr>h_disease = n, h_symptoms = [], h_confidence = c, h_distance = (100 - c) / 20\<rparr>"

definition ex_flu_upper :: disease_meta where
  "ex_flu_upper = \<lparr>disease = ''FLU'', symptoms = [''chills''],
                   medicines = [''Ibuprofen''], precautions = []\<rparr>"


text \<open>
  A metadata table in which two names differ in letter case only, behind an entry of
  another name.
\<close>

definition ex_case_diagnoser :: diagnoser where
  "ex_case_diagnoser = \<lparr>self_index = \<lparr>ix_d = 2, ix_xb = [[5, 5], [1, 0], [0, 2]]\<rparr>,
                        self_documents = [''DISEASE: Migraine.'', ''DISEASE: Flu.'',
                                          ''DISEASE: FLU.''],
                        self_metadata = [ex_migraine, ex_flu, ex_flu_upper]\<rparr>"

text \<open>A stored vector at squared distance \<^verbatim>\<open>2**-20\<close> from the origin.\<close>

definition ex_near :: diagnoser where
  "ex_near = \<lparr>self_index = \<lparr>ix_d = 2, ix_xb = [[1 / 1024, 0]]\<rparr>,
              self_documents = [''DISEASE: Flu.''],
              self_metadata = [ex_flu]\<rparr>"

text \<open>A folder whose three files disagree in size: two vectors, one document, no metadata.\<close>

definition ex_store_mismatch :: store where
  "ex_store_mismatch = \<lparr>folder_exists = True,
                        index_file = Stored \<lparr>ix_d = 2, ix_xb = [[1, 0], [0, 2]]\<rparr>,
                        docs_file = Stored [''DISEASE: Flu.''],
                        metadata_file = Stored []\<rparr>"

definition ex_no_store :: store where
  "ex_no_store = \<lparr>folder_exists = False, index_file = Missing, docs_file = Missing,
                  metadata_file = Missing\<rparr>"

text \<open>A folder in which the metadata file was cut short.\<close>

definition ex_store_truncated :: store where
  "ex_store_truncated = \<lparr>folder_exists = True,
                         index_file = Stored \<lparr>ix_d = 2, ix_xb = [[1, 0]]\<rparr>,
                         docs_file = Stored [''DISEASE: Flu.''],
                         metadata_file = Unreadable\<rparr>"

text \<open>An embedder that always answers, with two-dimensional vectors.\<close>

definition ex_embedder :: embedder where
  "ex_embedder = \<lparr>model_loads = True, embed = (\<lambda>t. Some [real (length t), 1])\<rparr>"

text \<open>Health files: one valid record next to an entry with a blank name, and the blank entry alone.\<close>

definition ex_blank_entry :: raw_entry where
  "ex_blank_entry = \<lparr>e_name = ''  '', e_symptoms = [''fever''], e_medicines = [],
                     e_precautions = []\<rparr>"

definition ex_migraine_entry :: raw_entry where
  "ex_migraine_entry = \<lparr>e_name = '' Migraine '', e_symptoms = [''headache'', ''nausea''],
                        e_medicines = [], e_precautions = [''Avoid light'']\<rparr>"

definition ex_health_file :: health_file where
  "ex_health_file = Diseases [ex_blank_entry, ex_migraine_entry]"

definition ex_blank_file :: health_file where
  "ex_blank_file = Diseases [ex_blank_entry]"

section \<open>Rounding to single precision\<close>

lemma round_half_even_bounds:
  "\<lfloor>q\<rfloor> \<le> round_half_even q \<and> round_half_even q \<le> \<lfloor>q\<rfloor> + 1"
  by (simp add: round_half_even_def Let_def)

lemma round_half_even_of_int: "round_half_even (of_int n) = n"
  by (simp add: round_half_even_def Let_def)

lemma round_half_even_mono:
  assumes "q \<le> q'"
  shows "round_half_even q \<le> round_half_even q'"
proof (cases "\<lfloor>q\<rfloor> = \<lfloor>q'\<rfloor>")
  case True
  with assms have "q - of_int \<lfloor>q\<rfloor> \<le> q' - of_int \<lfloor>q'\<rfloor>" by simp
  with True show ?thesis by (auto simp: round_half_even_def Let_def)
next
  case False
  with assms have "\<lfloor>q\<rfloor> < \<lfloor>q'\<rfloor>" using floor_mono[of q q'] by linarith
  with round_half_even_bounds[of q] round_half_even_bounds[of q'] show ?thesis by linarith
qed

lemma round_half_even_error: "\<bar>of_int (round_half_even q) - q\<bar> \<le> 1 / 2"
proof -
  have "of_int \<lfloor>q\<rfloor> \<le> q" "q < of_int \<lfloor>q\<rfloor> + 1" by linarith+
  then show ?thesis by (auto simp: round_half_even_def Let_def)
qed

lemma ulp_search_pos: "0 < u \<Longrightarrow> 0 < ulp_search n u a"
  by (induction n arbitrary: u) auto

lemma ulp_search_form: "\<exists>j \<le> n. ulp_search n u a = u * 2 ^ j"
proof (induction n arbitrary: u)
  case 0
  show ?case by simp
next
  case (Suc n)
  show ?case
  proof (cases "a < 16777216 * u")
    case True
    then have "ulp_search (Suc n) u a = u * 2 ^ 0" by simp
    then show ?thesis by blast
  next
    case False
    from Suc[of "2 * u"] obtain j where "j \<le> n" "ulp_search n (2 * u) a = 2 * u * 2 ^ j" by blast
    with False have "Suc j \<le> Suc n \<and> ulp_search (Suc n) u a = u * 2 ^ Suc j" by simp
    then show ?thesis by blast
  qed
qed

lemma ulp_search_eq:
  assumes "0 < u" and "j \<le> n" and "a < 16777216 * (u * 2 ^ j)"
    and "j = 0 \<or> 8388608 * (u * 2 ^ j) \<le> a"
  shows "ulp_search n u a = u * 2 ^ j"
  using assms
proof (induction n arbitrary: u j)
  case 0
  then show ?case by simp
next
  case (Suc n)
  show ?case
  proof (cases j)
    case 0
    with Suc.prems show ?thesis by simp
  next
    case (Suc i)
    with Suc.prems have low: "8388608 * (u * 2 ^ j) \<le> a" by simp
    from Suc Suc.prems(1) have "16777216 * u \<le> 8388608 * (u * 2 ^ j)" by simp
    with low have nlt: "\<not> a < 16777216 * u" by linarith
    have "ulp_search n (2 * u) a = 2 * u * 2 ^ i"
    proof (rule Suc.IH)
      show "0 < 2 * u" using Suc.prems(1) by simp
      show "i \<le> n" using Suc Suc.prems(2) by simp
      show "a < 16777216 * (2 * u * 2 ^ i)" using Suc.prems(3) Suc by simp
      show "i = 0 \<or> 8388608 * (2 * u * 2 ^ i) \<le> a" using low Suc by simp
    qed
    with nlt Suc show ?thesis by simp
  qed
qed

lemma ulp_search_lower:
  assumes "0 < u" and "ulp_search n u a \<noteq> u"
  shows "8388608 * ulp_search n u a \<le> a"
  using assms
proof (induction n arbitrary: u)
  case 0
  then show ?case by simp
next
  case (Suc n)
  from Suc.prems(2) have nlt: "\<not> a < 16777216 * u" by (auto split: if_splits)
  then have eq: "ulp_search (Suc n) u a = ulp_search n (2 * u) a" by simp
  show ?case
  proof (cases "ulp_search n (2 * u) a = 2 * u")
    case True
    with eq nlt show ?thesis by simp
  next
    case False
    from Suc.IH[of "2 * u"] Suc.prems(1) False eq show ?thesis by simp
  qed
qed

lemma ulp_search_upper:
  assumes "ulp_search n u a \<noteq> u * 2 ^ n"
  shows "a < 16777216 * ulp_search n u a"
  using assms
proof (induction n arbitrary: u)
  case 0
  then show ?case by simp
next
  case (Suc n)
  show ?case
  proof (cases "a < 16777216 * u")
    case True
    then show ?thesis by simp
  next
    case False
    with Suc.prems have "ulp_search n (2 * u) a \<noteq> 2 * u * 2 ^ n" by simp
    from Suc.IH[OF this] False show ?thesis by simp
  qed
qed

lemma ulp_search_mono:
  assumes "0 < u" and "a \<le> b"
  shows "ulp_search n u a \<le> ulp_search n u b"
  using assms
proof (induction n arbitrary: u)
  case 0
  show ?case by simp
next
  case (Suc n)
  show ?case
  proof (cases "b < 16777216 * u")
    case True
    with Suc.prems show ?thesis by simp
  next
    case False
    show ?thesis
    proof (cases "a < 16777216 * u")
      case True
      obtain j where j: "ulp_search n (2 * u) b = 2 * u * 2 ^ j" using ulp_search_form by blast
      have "(1::real) \<le> 2 ^ Suc j" by (rule one_le_power) simp
      then have "u * 1 \<le> u * 2 ^ Suc j" using Suc.prems(1) by (intro mult_left_mono) simp_all
      with j have "u \<le> ulp_search n (2 * u) b" by simp
      with True False show ?thesis by simp
    next
      case F2: False
      with False Suc.IH[of "2 * u"] Suc.prems show ?thesis by simp
    qed
  qed
qed


lemma ulp_search_le:
  assumes "0 < u" and "j \<le> n" and "a < 16777216 * (u * 2 ^ j)"
  shows "ulp_search n u a \<le> u * 2 ^ j"
  using assms
proof (induction n arbitrary: u j)
  case 0
  then show ?case by simp
next
  case (Suc n)
  show ?case
  proof (cases "a < 16777216 * u")
    case True
    have "(1::real) \<le> 2 ^ j" by (rule one_le_power) simp
    then have "u * 1 \<le> u * 2 ^ j" using Suc.prems(1) by (intro mult_left_mono) simp_all
    with True show ?thesis by simp
  next
    case False
    have "j \<noteq> 0" using False Suc.prems(3) by (cases j) auto
    then obtain i where i: "j = Suc i" by (cases j) auto
    have "ulp_search n (2 * u) a \<le> 2 * u * 2 ^ i"
    proof (rule Suc.IH)
      show "0 < 2 * u" using Suc.prems(1) by simp
      show "i \<le> n" using i Suc.prems(2) by simp
      show "a < 16777216 * (2 * u * 2 ^ i)" using i Suc.prems(3) by simp
    qed
    with False i show ?thesis by simp
  qed
qed

lemma float32_min_ulp_pos: "0 < float32_min_ulp"
  by (simp add: float32_min_ulp_def)

lemma float32_ulp_pos: "0 < float32_ulp a"
  unfolding float32_ulp_def by (rule ulp_search_pos) (rule float32_min_ulp_pos)

lemma float32_round_nonneg: "0 \<le> x \<Longrightarrow> 0 \<le> float32_round x"
proof -
  assume x: "0 \<le> x"
  let ?u = "float32_ulp \<bar>x\<bar>"
  have u: "0 < ?u" by (rule float32_ulp_pos)
  with x have "0 \<le> x / ?u" by simp
  from round_half_even_mono[OF this] have "0 \<le> round_half_even (x / ?u)"
    using round_half_even_of_int[of 0] by simp
  with u show ?thesis by (simp add: float32_round_def Let_def)
qed

lemma float32_round_nonpos: "x \<le> 0 \<Longrightarrow> float32_round x \<le> 0"
proof -
  assume x: "x \<le> 0"
  let ?u = "float32_ulp \<bar>x\<bar>"
  have u: "0 < ?u" by (rule float32_ulp_pos)
  with x have "x / ?u \<le> 0" by (simp add: divide_nonpos_pos)
  from round_half_even_mono[OF this] have "round_half_even (x / ?u) \<le> 0"
    using round_half_even_of_int[of 0] by simp
  with u show ?thesis by (simp add: float32_round_def Let_def mult_le_0_iff)
qed

lemma float32_round_mono:
  assumes "0 \<le> x" and "x \<le> y"
  shows "float32_round x \<le> float32_round y"
proof -
  let ?u0 = "float32_min_ulp"
  let ?ux = "float32_ulp x" and ?uy = "float32_ulp y"
  from assms have y: "0 \<le> y" by simp
  have u0: "0 < ?u0" by (rule float32_min_ulp_pos)
  have ux: "0 < ?ux" and uy: "0 < ?uy" by (rule float32_ulp_pos)+
  have le: "?ux \<le> ?uy" unfolding float32_ulp_def using u0 assms(2) by (rule ulp_search_mono)
  have rx: "float32_round x = ?ux * of_int (round_half_even (x / ?ux))"
    using assms(1) by (simp add: float32_round_def Let_def)
  have ry: "float32_round y = ?uy * of_int (round_half_even (y / ?uy))"
    using y by (simp add: float32_round_def Let_def)
  show ?thesis
  proof (cases "?ux = ?uy")
    case True
    from assms(2) ux have "x / ?ux \<le> y / ?ux" by (simp add: divide_right_mono)
    from round_half_even_mono[OF this] True ux show ?thesis
      unfolding rx ry by (simp add: mult_left_mono)
  next
    case False
    with le have lt: "?ux < ?uy" by simp
    obtain i where i: "i \<le> 253" "?ux = ?u0 * 2 ^ i"
      unfolding float32_ulp_def using ulp_search_form by blast
    obtain j where j: "j \<le> 253" "?uy = ?u0 * 2 ^ j"
      unfolding float32_ulp_def using ulp_search_form by blast
    from lt i j u0 have "(2::real) ^ i < 2 ^ j" by simp
    then have ij: "i < j" by simp
    then have "Suc i \<le> j" by simp
    then have "(2::real) ^ Suc i \<le> 2 ^ j" by (rule power_increasing) simp
    then have "?u0 * 2 ^ Suc i \<le> ?u0 * 2 ^ j" using u0 by (intro mult_left_mono) simp_all
    with i j have double: "2 * ?ux \<le> ?uy" by simp
    \<comment> \<open>the larger argument is at least the bottom of its binade\<close>
    have "(1::real) < 2 ^ j" using ij by (intro one_less_power) simp_all
    then have "?u0 * 1 < ?u0 * 2 ^ j" using u0 by (intro mult_strict_left_mono) simp_all
    then have "?u0 < ?uy" using j(2) by (simp only: mult_1_right)
    then have "?uy \<noteq> ?u0" by linarith
    then have "8388608 * ?uy \<le> y"
      unfolding float32_ulp_def using u0 by (intro ulp_search_lower) simp_all
    with uy have "of_int 8388608 \<le> y / ?uy" by (simp add: pos_le_divide_eq)
    from round_half_even_mono[OF this] have "8388608 \<le> round_half_even (y / ?uy)"
      by (simp only: round_half_even_of_int)
    then have "(8388608::real) \<le> of_int (round_half_even (y / ?uy))" by linarith
    with uy have low: "?uy * 8388608 \<le> float32_round y"
      unfolding ry by (intro mult_left_mono) simp_all
    \<comment> \<open>the smaller argument is below the top of its binade\<close>
    have "(2::real) ^ i < 2 ^ 253" using ij j(1) by (intro power_strict_increasing) simp_all
    then have "?u0 * 2 ^ i < ?u0 * 2 ^ 253" using u0 by (intro mult_strict_left_mono) simp_all
    then have "?ux < ?u0 * 2 ^ 253" using i(2) by (simp only:)
    then have "?ux \<noteq> ?u0 * 2 ^ 253" by linarith
    then have "x < 16777216 * ?ux"
      unfolding float32_ulp_def by (intro ulp_search_upper) simp_all
    with ux have "x / ?ux \<le> of_int 16777216" by (simp add: pos_divide_le_eq)
    from round_half_even_mono[OF this] have "round_half_even (x / ?ux) \<le> 16777216"
      by (simp only: round_half_even_of_int)
    then have "of_int (round_half_even (x / ?ux)) \<le> (16777216::real)" by linarith
    with ux have up: "float32_round x \<le> ?ux * 16777216"
      unfolding rx by (intro mult_left_mono) simp_all
    from up low double show ?thesis by linarith
  qed
qed

lemma float32_round_at:
  assumes "j \<le> 253" and "u = float32_min_ulp * 2 ^ j"
    and "\<bar>x\<bar> < 16777216 * u" and "j = 0 \<or> 8388608 * u \<le> \<bar>x\<bar>"
  shows "float32_round x = u * of_int (round_half_even (x / u))"
proof -
  have "float32_ulp \<bar>x\<bar> = float32_min_ulp * 2 ^ j"
    unfolding float32_ulp_def
  proof (rule ulp_search_eq)
    show "0 < float32_min_ulp" by (rule float32_min_ulp_pos)
    show "j \<le> 253" by (rule assms(1))
    show "\<bar>x\<bar> < 16777216 * (float32_min_ulp * 2 ^ j)" using assms(2,3) by simp
    show "j = 0 \<or> 8388608 * (float32_min_ulp * 2 ^ j) \<le> \<bar>x\<bar>" using assms(2,4) by simp
  qed
  with assms(2) show ?thesis by (simp add: float32_round_def Let_def)
qed

lemma float32_round_error:
  assumes "\<bar>x\<bar> < 128"
  shows "\<bar>float32_round x - x\<bar> \<le> 1 / 262144"
proof -
  let ?u = "float32_ulp \<bar>x\<bar>"
  have u: "0 < ?u" by (rule float32_ulp_pos)
  have "float32_min_ulp * 2 ^ 132 = 1 / 131072" by (simp add: float32_min_ulp_def)
  moreover have "?u \<le> float32_min_ulp * 2 ^ 132"
    unfolding float32_ulp_def
  proof (rule ulp_search_le)
    show "0 < float32_min_ulp" by (rule float32_min_ulp_pos)
    show "(132::nat) \<le> 253" by simp
    show "\<bar>x\<bar> < 16777216 * (float32_min_ulp * 2 ^ 132)"
      using assms by (simp add: float32_min_ulp_def)
  qed
  ultimately have ule: "?u \<le> 1 / 131072" by simp
  have "float32_round x - x = ?u * (of_int (round_half_even (x / ?u)) - x / ?u)"
    using u by (simp add: float32_round_def Let_def field_simps)
  then have "\<bar>float32_round x - x\<bar> = ?u * \<bar>of_int (round_half_even (x / ?u)) - x / ?u\<bar>"
    using u by (simp add: abs_mult)
  also have "\<dots> \<le> ?u * (1 / 2)"
    using u round_half_even_error[of "x / ?u"] by (intro mult_left_mono) simp_all
  also have "\<dots> \<le> 1 / 262144" using ule by simp
  finally show ?thesis .
qed

lemma float32_round_0: "float32_round 0 = 0"
  using float32_round_nonneg[of 0] float32_round_nonpos[of 0] by simp

lemma float32_round_20: "float32_round 20 = 20"
  using float32_round_at[of 130 "1 / 524288" 20]
  by (simp add: round_half_even_def float32_min_ulp_def)

lemma float32_round_80: "float32_round 80 = 80"
  using float32_round_at[of 132 "1 / 131072" 80]
  by (simp add: round_half_even_def float32_min_ulp_def)

lemma float32_round_100: "float32_round 100 = 100"
  using float32_round_at[of 132 "1 / 131072" 100]
  by (simp add: round_half_even_def float32_min_ulp_def)


lemma float32_of_cases:
  obtains (pos) "2 ^ 128 - 2 ^ 103 \<le> x" "float32_of x = PosInf"
  | (neg) "x \<le> - (2 ^ 128 - 2 ^ 103)" "float32_of x = NegInf"
  | (fin) "- (2 ^ 128 - 2 ^ 103) < x" "x < 2 ^ 128 - 2 ^ 103" "float32_of x = Finite (float32_round x)"
  by (cases "(2::real) ^ 128 - 2 ^ 103 \<le> x"; cases "x \<le> - ((2::real) ^ 128 - 2 ^ 103)")
     (auto simp: float32_of_def)

lemma confidence_nonneg: "0 \<le> confidence distance"
  by (simp add: py_max_zero_def FLT_MAX_def split: float32.splits)

lemma py_max_zero_rsub_nonpos:
  assumes "100 \<le> v"
  shows "py_max_zero (float32_rsub 100 (Finite v)) = 0"
proof (cases "100 - v" rule: float32_of_cases)
  case pos
  with assms show ?thesis by simp
next
  case neg
  then show ?thesis by (simp add: float32_rsub_def py_max_zero_def)
next
  case fin
  from assms have "float32_round (100 - v) \<le> 0" by (intro float32_round_nonpos) simp
  with fin show ?thesis by (simp add: float32_rsub_def py_max_zero_def)
qed

lemma py_max_zero_rsub_pos:
  assumes "0 \<le> v" and "v \<le> 100"
  shows "py_max_zero (float32_rsub 100 (Finite v)) = float32_round (100 - v)"
proof (cases "100 - v" rule: float32_of_cases)
  case pos
  with assms show ?thesis by simp
next
  case neg
  with assms show ?thesis by simp
next
  case fin
  from assms have "0 \<le> float32_round (100 - v)" by (intro float32_round_nonneg) simp
  with fin show ?thesis by (simp add: float32_rsub_def py_max_zero_def)
qed

lemma confidence_finite:
  assumes "0 \<le> distance"
  shows "float32_rsub 100 (float32_mul distance 20) \<noteq> PosInf"
proof (cases "distance * 20" rule: float32_of_cases)
  case pos
  then show ?thesis by (simp add: float32_mul_def float32_rsub_def)
next
  case neg
  with assms show ?thesis by simp
next
  case fin
  from assms have "0 \<le> float32_round (distance * 20)" by (intro float32_round_nonneg) simp
  then have "float32_of (100 - float32_round (distance * 20)) \<noteq> PosInf"
    by (simp add: float32_of_def)
  with fin show ?thesis by (simp add: float32_mul_def float32_rsub_def)
qed

lemma confidence_zero:
  assumes "5 \<le> distance"
  shows "confidence distance = 0"
proof (cases "distance * 20" rule: float32_of_cases)
  case pos
  then show ?thesis
    by (simp add: float32_mul_def float32_rsub_def py_max_zero_def)
next
  case neg
  with assms show ?thesis by simp
next
  case fin
  from assms have "float32_round 100 \<le> float32_round (distance * 20)"
    by (intro float32_round_mono) simp_all
  then have "100 \<le> float32_round (distance * 20)" by (simp add: float32_round_100)
  from py_max_zero_rsub_nonpos[OF this] fin show ?thesis
    by (simp add: float32_mul_def)
qed

lemma confidence_below_5:
  assumes "0 \<le> distance" and "distance \<le> 5"
  shows "float32_mul distance 20 = Finite (float32_round (distance * 20))"
    and "0 \<le> float32_round (distance * 20)" and "float32_round (distance * 20) \<le> 100"
    and "confidence distance = float32_round (100 - float32_round (distance * 20))"
proof -
  from assms show m: "float32_mul distance 20 = Finite (float32_round (distance * 20))"
    by (simp add: float32_mul_def float32_of_def)
  from assms show a: "0 \<le> float32_round (distance * 20)"
    by (intro float32_round_nonneg) simp
  from assms have "float32_round (distance * 20) \<le> float32_round 100"
    by (intro float32_round_mono) simp_all
  then show b: "float32_round (distance * 20) \<le> 100" by (simp add: float32_round_100)
  from py_max_zero_rsub_pos[OF a b] m
  show "confidence distance = float32_round (100 - float32_round (distance * 20))"
    by simp
qed

lemma confidence_le_100:
  assumes "0 \<le> distance"
  shows "confidence distance \<le> 100"
proof (cases "distance \<le> 5")
  case True
  note f = confidence_below_5[OF assms True]
  from f(2,3) have "float32_round (100 - float32_round (distance * 20)) \<le> float32_round 100"
    by (intro float32_round_mono) simp_all
  with f(4) show ?thesis by (simp add: float32_round_100)
next
  case False
  then have "confidence distance = 0" by (intro confidence_zero) simp
  then show ?thesis by simp
qed

lemma confidence_antimono:
  assumes "0 \<le> distance" and "distance \<le> distance'"
  shows "confidence distance' \<le> confidence distance"
proof (cases "distance' \<le> 5")
  case False
  then have "confidence distance' = 0" by (intro confidence_zero) simp
  with confidence_nonneg[of distance] show ?thesis by simp
next
  case True
  from assms have nn': "0 \<le> distance'" by simp
  from assms True have le5: "distance \<le> 5" by simp
  note f = confidence_below_5[OF assms(1) le5]
  note f' = confidence_below_5[OF nn' True]
  from assms have "float32_round (distance * 20) \<le> float32_round (distance' * 20)"
    by (intro float32_round_mono) simp_all
  with f'(3) have "float32_round (100 - float32_round (distance' * 20))
      \<le> float32_round (100 - float32_round (distance * 20))"
    by (intro float32_round_mono) simp_all
  with f(4) f'(4) show ?thesis by simp
qed

lemma confidence_error:
  assumes "0 \<le> distance"
  shows "\<bar>confidence distance - max 0 (100 - 20 * distance)\<bar> \<le> 1 / 131072"
proof (cases "distance \<le> 5")
  case False
  then have "confidence distance = 0" by (intro confidence_zero) simp
  with False show ?thesis by simp
next
  case True
  note f = confidence_below_5[OF assms True]
  let ?v = "float32_round (distance * 20)"
  from assms True have "\<bar>distance * 20\<bar> < 128" by simp
  from float32_round_error[OF this] have e1: "\<bar>?v - distance * 20\<bar> \<le> 1 / 262144" .
  from f(2,3) have "\<bar>100 - ?v\<bar> < 128" by simp
  from float32_round_error[OF this]
  have e2: "\<bar>float32_round (100 - ?v) - (100 - ?v)\<bar> \<le> 1 / 262144" .
  from True have mx: "max 0 (100 - 20 * distance) = 100 - 20 * distance" by simp
  show ?thesis unfolding f(4) mx using e1 e2 by linarith
qed

lemma confidence_0: "confidence 0 = 100"
  using confidence_below_5(4)[of 0] by (simp add: float32_round_0 float32_round_100)

lemma confidence_1: "confidence 1 = 80"
  using confidence_below_5(4)[of 1] by (simp add: float32_round_20 float32_round_80)

lemma confidence_4: "confidence 4 = 20"
  using confidence_below_5(4)[of 4] by (simp add: float32_round_20 float32_round_80)

lemma float32_round_tie: "float32_round (26214395 / 262144) = 6553599 / 65536"
  using float32_round_at[of 132 "1 / 131072" "26214395 / 262144"]
  by (simp add: round_half_even_def float32_min_ulp_def)

lemma float32_round_small: "float32_round (5 / 262144) = 5 / 262144"
  using float32_round_at[of 110 "1 / 549755813888" "5 / 262144"]
  by (simp add: round_half_even_def float32_min_ulp_def)

lemma confidence_near: "confidence (1 / 1048576) = 6553599 / 65536"
  using confidence_below_5(4)[of "1 / 1048576"]
  by (simp add: float32_round_small float32_round_tie)

section \<open>Search results and their origin\<close>

lemma fvec_L2sqr_nonneg: "0 \<le> fvec_L2sqr x y"
  unfolding fvec_L2sqr_def by (rule sum_list_nonneg) auto

lemma FLT_MAX_nonneg: "0 \<le> FLT_MAX"
  by (simp add: FLT_MAX_def)

lemma index_search_nonneg:
  assumes "index_search ix x k = Inr slots" and "(dd, i) \<in> set slots"
  shows "0 \<le> dd"
proof -
  let ?scored = "zip (map (fvec_L2sqr x) (ix_xb ix)) (map int [0..<length (ix_xb ix)])"
  from assms(1) have slots: "slots = take k (sort_key fst ?scored)
      @ replicate (k - length (take k (sort_key fst ?scored))) (FLT_MAX, - 1)"
    by (simp add: index_search_def Let_def split: if_splits)
  from assms(2) slots consider "(dd, i) \<in> set (take k (sort_key fst ?scored))" | "dd = FLT_MAX"
    by auto
  then show ?thesis
  proof cases
    case 1
    then have "(dd, i) \<in> set ?scored" by (auto dest: in_set_takeD)
    then have "dd \<in> set (map (fvec_L2sqr x) (ix_xb ix))" by (rule set_zip_leftD)
    then show ?thesis by (auto simp: fvec_L2sqr_nonneg)
  next
    case 2
    then show ?thesis by (simp add: FLT_MAX_nonneg)
  qed
qed

lemma collect_results_origin:
  assumes "collect_results md slots acc = Inr hits" and "h \<in> set hits"
  shows "h \<in> set acc \<or> (\<exists>(dd, i) \<in> set slots. h_distance h = dd
            \<and> h_confidence h = confidence dd)"
  using assms
proof (induction md slots acc rule: collect_results.induct)
  case (1 md results)
  then show ?case by simp
next
  case (2 md distance idx rest results)
  show ?case
  proof (cases "idx < int (length md)")
    case False
    with 2 show ?thesis by auto
  next
    case True
    with "2.prems" obtain m where m: "py_getitem md idx = Inr m"
      by (cases "py_getitem md idx") auto
    let ?new = "\<lparr>h_disease = disease m, h_symptoms = symptoms m,
                  h_confidence = confidence distance, h_distance = distance\<rparr>"
    from True m "2.prems" have "collect_results md rest (results @ [?new]) = Inr hits" by simp
    from "2.IH"(1)[OF True m this "2.prems"(2)] show ?thesis by auto
  qed
qed

lemma final_diagnoses_origin:
  "dx \<in> set (final_diagnoses md hs) \<Longrightarrow>
     \<exists>h \<in> set hs. \<exists>m. get_complete_disease_info md (h_disease h) = Some m
        \<and> dx = \<lparr>dx_disease = disease m, dx_symptoms = symptoms m, dx_medicines = medicines m,
                 dx_precautions = precautions m, dx_confidence = min 95 (h_confidence h)\<rparr>"
  by (induction md hs rule: final_diagnoses.induct) (auto split: option.splits)

section \<open>The dictionary of unique diseases\<close>

lemma map_of_dict_set: "map_of (dict_set u k v) = (map_of u)(k \<mapsto> v)"
  by (induction u k v rule: dict_set.induct) auto

lemma set_dict_set_subset: "set (dict_set u k v) \<subseteq> insert (k, v) (set u)"
  by (induction u k v rule: dict_set.induct) auto

lemma fst_dict_set: "fst ` set (dict_set u k v) = insert k (fst ` set u)"
  by (induction u k v rule: dict_set.induct) auto

lemma distinct_dict_set: "distinct (map fst u) \<Longrightarrow> distinct (map fst (dict_set u k v))"
proof (induction u k v rule: dict_set.induct)
  case (1 k v)
  then show ?case by simp
next
  case (2 k' v' rest k v)
  then show ?case using fst_dict_set[of rest k v] by (auto simp: image_iff)
qed

lemma unique_diseases_snoc:
  "unique_diseases (hs @ [x]) = dedup_step x (unique_diseases hs)"
  by (simp add: unique_diseases_def)

lemma map_of_dedup_step:
  "map_of (dedup_step x u) =
     (case map_of u (h_disease x) of
        None \<Rightarrow> (map_of u)(h_disease x \<mapsto> x)
      | Some old \<Rightarrow> if h_confidence x > h_confidence old
                     then (map_of u)(h_disease x \<mapsto> x) else map_of u)"
  by (simp add: dedup_step_def Let_def map_of_dict_set split: option.splits)

lemma distinct_dedup_step: "distinct (map fst u) \<Longrightarrow> distinct (map fst (dedup_step x u))"
  by (simp add: dedup_step_def Let_def distinct_dict_set split: option.splits)

lemma dedup_inv_add:
  assumes inv: "dedup_inv hs m"
    and best: "\<forall>h' \<in> set hs. h_disease h' = h_disease x \<longrightarrow> h_confidence h' \<le> h_confidence x"
  shows "dedup_inv (hs @ [x]) (m(h_disease x \<mapsto> x))"
  unfolding dedup_inv_def
proof (intro conjI allI impI ballI)
  fix h assume "h \<in> set (hs @ [x])"
  then show "(m(h_disease x \<mapsto> x)) (h_disease h) \<noteq> None"
    using inv by (auto simp: dedup_inv_def)
next
  fix name h assume look: "(m(h_disease x \<mapsto> x)) name = Some h"
  show "h \<in> set (hs @ [x])"
    using look inv by (auto simp: dedup_inv_def split: if_splits)
  show "h_disease h = name"
    using look inv by (auto simp: dedup_inv_def split: if_splits)
  fix h' assume h': "h' \<in> set (hs @ [x])" and nm: "h_disease h' = name"
  show "h_confidence h' \<le> h_confidence h"
  proof (cases "name = h_disease x")
    case True
    with look have "h = x" by simp
    with h' nm True best show ?thesis by auto
  next
    case False
    with look have old: "m name = Some h" by simp
    from False nm have "h' \<noteq> x" by auto
    with h' have "h' \<in> set hs" by simp
    with old nm inv show ?thesis unfolding dedup_inv_def by blast
  qed
qed

lemma dedup_inv_keep:
  assumes inv: "dedup_inv hs m"
    and old: "m (h_disease x) = Some old"
    and le: "h_confidence x \<le> h_confidence old"
  shows "dedup_inv (hs @ [x]) m"
  unfolding dedup_inv_def
proof (intro conjI allI impI ballI)
  fix h assume "h \<in> set (hs @ [x])"
  then show "m (h_disease h) \<noteq> None"
    using inv old by (auto simp: dedup_inv_def)
next
  fix name h assume look: "m name = Some h"
  from look inv have a: "h \<in> set hs" and b: "h_disease h = name"
    unfolding dedup_inv_def by blast+
  from a show "h \<in> set (hs @ [x])" by simp
  from b show "h_disease h = name" .
  fix h' assume h': "h' \<in> set (hs @ [x])" and nm: "h_disease h' = name"
  show "h_confidence h' \<le> h_confidence h"
  proof (cases "h' = x")
    case True
    with nm look old have "h = old" by simp
    with True le show ?thesis by simp
  next
    case False
    with h' have "h' \<in> set hs" by simp
    with look nm inv show ?thesis unfolding dedup_inv_def by blast
  qed
qed

lemma dedup_inv_step:
  assumes inv: "dedup_inv hs (map_of u)"
  shows "dedup_inv (hs @ [x]) (map_of (dedup_step x u))"
proof (cases "map_of u (h_disease x)")
  case None
  have "\<forall>h' \<in> set hs. h_disease h' \<noteq> h_disease x"
  proof
    fix h' assume "h' \<in> set hs"
    with inv have "map_of u (h_disease h') \<noteq> None" unfolding dedup_inv_def by blast
    with None show "h_disease h' \<noteq> h_disease x" by auto
  qed
  then have "\<forall>h' \<in> set hs. h_disease h' = h_disease x \<longrightarrow> h_confidence h' \<le> h_confidence x"
    by blast
  from dedup_inv_add[OF inv this] None show ?thesis by (simp add: map_of_dedup_step)
next
  case (Some old)
  show ?thesis
  proof (cases "h_confidence x > h_confidence old")
    case True
    have "\<forall>h' \<in> set hs. h_disease h' = h_disease x \<longrightarrow> h_confidence h' \<le> h_confidence x"
    proof (intro ballI impI)
      fix h' assume "h' \<in> set hs" "h_disease h' = h_disease x"
      with inv Some have "h_confidence h' \<le> h_confidence old" unfolding dedup_inv_def by blast
      with True show "h_confidence h' \<le> h_confidence x" by simp
    qed
    from dedup_inv_add[OF inv this] Some True show ?thesis by (simp add: map_of_dedup_step)
  next
    case False
    then have "h_confidence x \<le> h_confidence old" by simp
    from dedup_inv_keep[OF inv Some this] Some False show ?thesis by (simp add: map_of_dedup_step)
  qed
qed

lemma dedup_inv_unique_diseases: "dedup_inv hs (map_of (unique_diseases hs))"
proof (induction hs rule: rev_induct)
  case Nil
  show ?case by (simp add: dedup_inv_def unique_diseases_def)
next
  case (snoc x xs)
  then show ?case by (simp only: unique_diseases_snoc dedup_inv_step)
qed

lemma distinct_unique_diseases: "distinct (map fst (unique_diseases hs))"
proof (induction hs rule: rev_induct)
  case Nil
  show ?case by (simp add: unique_diseases_def)
next
  case (snoc x xs)
  then show ?case by (simp only: unique_diseases_snoc distinct_dedup_step)
qed


lemma unique_diseases_mem:
  assumes "(name, h) \<in> set (unique_diseases hits)"
  shows "h \<in> set hits \<and> h_disease h = name \<and>
     (\<forall>h' \<in> set hits. h_disease h' = name \<longrightarrow> h_confidence h' \<le> h_confidence h)"
proof -
  from assms distinct_unique_diseases[of hits]
  have "map_of (unique_diseases hits) name = Some h" by (simp add: map_of_is_SomeI)
  with dedup_inv_unique_diseases[of hits] show ?thesis unfolding dedup_inv_def by blast
qed

lemma unique_diseases_names:
  "fst ` set (unique_diseases hits) = h_disease ` set hits"
proof
  show "fst ` set (unique_diseases hits) \<subseteq> h_disease ` set hits"
  proof
    fix n assume "n \<in> fst ` set (unique_diseases hits)"
    then obtain h where "(n, h) \<in> set (unique_diseases hits)" by auto
    from unique_diseases_mem[OF this] show "n \<in> h_disease ` set hits" by auto
  qed
  show "h_disease ` set hits \<subseteq> fst ` set (unique_diseases hits)"
  proof
    fix n assume "n \<in> h_disease ` set hits"
    then obtain h where h: "h \<in> set hits" "n = h_disease h" by auto
    with dedup_inv_unique_diseases[of hits]
    have "map_of (unique_diseases hits) n \<noteq> None" unfolding dedup_inv_def by blast
    then show "n \<in> fst ` set (unique_diseases hits)" by (simp add: map_of_eq_None_iff)
  qed
qed

lemma set_sorted_diseases: "set (sorted_diseases u) = snd ` set u"
  by (simp add: sorted_diseases_def)

lemma ranked_subset:
  assumes "h \<in> set (take 3 (sorted_diseases (unique_diseases hits)))"
  shows "h \<in> set hits"
proof -
  from assms have "h \<in> set (sorted_diseases (unique_diseases hits))" by (rule in_set_takeD)
  then obtain n where "(n, h) \<in> set (unique_diseases hits)"
    by (auto simp: set_sorted_diseases)
  from unique_diseases_mem[OF this] show ?thesis by simp
qed

lemma search_hit_props:
  assumes "search_similar_diseases self q k = Inr hits" and "h \<in> set hits"
  shows "h_confidence h = confidence (h_distance h) \<and> 0 \<le> h_distance h"
proof -
  from assms(1) obtain slots where s: "index_search (self_index self) q k = Inr slots"
    and c: "collect_results (self_metadata self) slots [] = Inr hits"
    by (auto simp: search_similar_diseases_def split: sum.splits)
  from collect_results_origin[OF c assms(2)] obtain dd i where
    "(dd, i) \<in> set slots" "h_distance h = dd" "h_confidence h = confidence dd"
    by auto
  with index_search_nonneg[OF s] show ?thesis by simp
qed

lemma final_diagnoses_confidence:
  "map dx_confidence (final_diagnoses md hs)
     = map (\<lambda>h. min 95 (h_confidence h))
         (filter (\<lambda>h. get_complete_disease_info md (h_disease h) \<noteq> None) hs)"
  by (induction md hs rule: final_diagnoses.induct) (auto split: option.splits)

lemma confidence_5: "confidence 5 = 0"
  by (rule confidence_zero) simp

lemma confidence_50: "confidence 50 = 0"
  by (rule confidence_zero) simp

lemma confidence_FLT_MAX: "confidence FLT_MAX = 0"
  by (rule confidence_zero) (simp add: FLT_MAX_def)

section \<open>Confidence\<close>

text \<open>
  Claim C3, as amended. The confidence of every hit returned by
  \<^verbatim>\<open>search_similar_diseases\<close> is \<open>max 0 (100 - d * 20)\<close> evaluated in single precision
  for its distance \<open>d\<close>, the product and the difference each rounded; it is within
  \<open>1 / 131072\<close> of the exact value, lies between 0 and 100, and is 0 from distance 5 on;
  a hit that is farther away never has the higher confidence. Then \<^verbatim>\<open>diagnose\<close>
  returns too: the confidences of its diagnoses are, in order, \<open>min 95\<close> of the
  confidences of the ranked hits whose name has a metadata entry, so each lies between 0
  and 95.
\<close>

theorem confidence_single_precision:
  assumes "search_similar_diseases self q k = Inr hits"
  shows "(\<forall>h \<in> set hits.
            h_confidence h = py_max_zero (float32_rsub 100 (float32_mul (h_distance h) 20))
          \<and> \<bar>h_confidence h - max 0 (100 - 20 * h_distance h)\<bar> \<le> 1 / 131072
          \<and> 0 \<le> h_confidence h \<and> h_confidence h \<le> 100
          \<and> (5 \<le> h_distance h \<longrightarrow> h_confidence h = 0))
       \<and> (\<forall>h \<in> set hits. \<forall>h' \<in> set hits.
            h_distance h \<le> h_distance h' \<longrightarrow> h_confidence h' \<le> h_confidence h)
       \<and> (\<exists>ds. diagnose self q k = Inr ds
            \<and> map dx_confidence ds
                = map (\<lambda>h. min 95 (h_confidence h))
                    (filter (\<lambda>h. get_complete_disease_info (self_metadata self) (h_disease h) \<noteq> None)
                       (take 3 (sorted_diseases (unique_diseases hits))))
            \<and> (\<forall>dx \<in> set ds. 0 \<le> dx_confidence dx \<and> dx_confidence dx \<le> 95))"
proof (intro conjI ballI impI)
  fix h assume h: "h \<in> set hits"
  from search_hit_props[OF assms h]
  have f: "h_confidence h = confidence (h_distance h)" and n: "0 \<le> h_distance h"
    by simp_all
  show "h_confidence h = confidence (h_distance h)" by (rule f)
  show "\<bar>h_confidence h - max 0 (100 - 20 * h_distance h)\<bar> \<le> 1 / 131072"
    unfolding f using n by (rule confidence_error)
  show "0 \<le> h_confidence h" unfolding f by (rule confidence_nonneg)
  show "h_confidence h \<le> 100" unfolding f using n by (rule confidence_le_100)
  assume "5 \<le> h_distance h"
  then show "h_confidence h = 0" unfolding f by (rule confidence_zero)
next
  fix h h' assume h: "h \<in> set hits" and h': "h' \<in> set hits"
    and le: "h_distance h \<le> h_distance h'"
  from search_hit_props[OF assms h] search_hit_props[OF assms h']
  have f: "h_confidence h = confidence (h_distance h)" and n: "0 \<le> h_distance h"
    and f': "h_confidence h' = confidence (h_distance h')"
    by simp_all
  show "h_confidence h' \<le> h_confidence h"
    unfolding f f' using n le by (rule confidence_antimono)
next
  let ?ranked = "take 3 (sorted_diseases (unique_diseases hits))"
  let ?ds = "final_diagnoses (self_metadata self) ?ranked"
  have d: "diagnose self q k = Inr ?ds" using assms by (simp add: diagnose_def)
  have m: "map dx_confidence ?ds
      = map (\<lambda>h. min 95 (h_confidence h))
          (filter (\<lambda>h. get_complete_disease_info (self_metadata self) (h_disease h) \<noteq> None)
             ?ranked)"
    by (rule final_diagnoses_confidence)
  have b: "\<forall>dx \<in> set ?ds. 0 \<le> dx_confidence dx \<and> dx_confidence dx \<le> 95"
  proof
    fix dx assume "dx \<in> set ?ds"
    from final_diagnoses_origin[OF this] obtain h where
      hr: "h \<in> set ?ranked" and dx: "dx_confidence dx = min 95 (h_confidence h)"
      by auto
    from hr have "h \<in> set hits" by (rule ranked_subset)
    from search_hit_props[OF assms this] have "h_confidence h = confidence (h_distance h)"
      by simp
    with confidence_nonneg[of "h_distance h"] have "0 \<le> h_confidence h" by simp
    with dx show "0 \<le> dx_confidence dx \<and> dx_confidence dx \<le> 95" by simp
  qed
  from d m b show "\<exists>ds. diagnose self q k = Inr ds
            \<and> map dx_confidence ds
                = map (\<lambda>h. min 95 (h_confidence h))
                    (filter (\<lambda>h. get_complete_disease_info (self_metadata self) (h_disease h) \<noteq> None)
                       (take 3 (sorted_diseases (unique_diseases hits))))
            \<and> (\<forall>dx \<in> set ds. 0 \<le> dx_confidence dx \<and> dx_confidence dx \<le> 95)"
    by blast
qed

theorem confidence_single_precision_witness:
  "search_similar_diseases ex_diagnoser [1, 0] 2
     = Inr [\<lparr>h_disease = ''Flu'', h_symptoms = [''fever'', ''cough''],
              h_confidence = 100, h_distance = 0\<rparr>,
            \<lparr>h_disease = ''Migraine'', h_symptoms = [''headache'', ''nausea''],
              h_confidence = 0, h_distance = 5\<rparr>]
   \<and> diagnose ex_diagnoser [1, 0] 2
       = Inr [\<lparr>dx_disease = ''Flu'', dx_symptoms = [''fever'', ''cough''],
                dx_medicines = [''Paracetamol''], dx_precautions = [''Rest''],
                dx_confidence = 95\<rparr>,
              \<lparr>dx_disease = ''Migraine'', dx_symptoms = [''headache'', ''nausea''],
                dx_medicines = [], dx_precautions = [''Avoid light''],
                dx_confidence = 0\<rparr>]
   \<and> (\<exists>ds. diagnose ex_diagnoser [1, 0] 2 = Inr ds \<and> map dx_confidence ds = [95, 0])"
proof -
  let ?hits = "[\<lparr>h_disease = ''Flu'', h_symptoms = [''fever'', ''cough''],
              h_confidence = 100, h_distance = 0\<rparr>,
            \<lparr>h_disease = ''Migraine'', h_symptoms = [''headache'', ''nausea''],
              h_confidence = 0, h_distance = 5\<rparr>]"
  have h: "search_similar_diseases ex_diagnoser [1, 0] 2 = Inr ?hits"
    by (simp add: search_similar_diseases_def index_search_def fvec_L2sqr_def py_getitem_def
          ex_diagnoser_def ex_flu_def ex_migraine_def confidence_0 confidence_5)
  have r: "take 3 (sorted_diseases (unique_diseases ?hits)) = ?hits"
    by (simp add: unique_diseases_def dedup_step_def Let_def sorted_diseases_def)
  have g: "filter (\<lambda>h. get_complete_disease_info (self_metadata ex_diagnoser) (h_disease h) \<noteq> None)
             ?hits = ?hits"
    by code_simp
  have d: "diagnose ex_diagnoser [1, 0] 2
       = Inr [\<lparr>dx_disease = ''Flu'', dx_symptoms = [''fever'', ''cough''],
                dx_medicines = [''Paracetamol''], dx_precautions = [''Rest''],
                dx_confidence = 95\<rparr>,
              \<lparr>dx_disease = ''Migraine'', dx_symptoms = [''headache'', ''nausea''],
                dx_medicines = [], dx_precautions = [''Avoid light''],
                dx_confidence = 0\<rparr>]"
    unfolding diagnose_def h by (simp add: r) code_simp
  from confidence_single_precision[OF h] obtain ds where
    ds: "diagnose ex_diagnoser [1, 0] 2 = Inr ds"
    and m: "map dx_confidence ds = map (\<lambda>h. min 95 (h_confidence h))
        (filter (\<lambda>h. get_complete_disease_info (self_metadata ex_diagnoser) (h_disease h) \<noteq> None)
           (take 3 (sorted_diseases (unique_diseases ?hits))))"
    by blast
  from m have "map dx_confidence ds = map (\<lambda>h. min 95 (h_confidence h)) ?hits"
    by (simp only: r g)
  then have "map dx_confidence ds = [95, 0]" by simp
  with ds have e: "\<exists>ds. diagnose ex_diagnoser [1, 0] 2 = Inr ds \<and> map dx_confidence ds = [95, 0]"
    by (intro exI conjI)
  show ?thesis by (intro conjI h d e)
qed

text \<open>
  Claim C3 as stated fails: at the distance \<^verbatim>\<open>2**-20\<close> the exact value of
  \<open>max 0 (100 - 20 * d)\<close> is \<open>26214395 / 262144\<close>, halfway between two floats, and the
  confidence of the hit is the rounded \<open>6553599 / 65536\<close>.
\<close>

theorem confidence_not_exact:
  "search_similar_diseases ex_near [0, 0] 1
     = Inr [\<lparr>h_disease = ''Flu'', h_symptoms = [''fever'', ''cough''],
              h_confidence = 6553599 / 65536, h_distance = 1 / 1048576\<rparr>]
   \<and> max 0 (100 - 20 * (1 / 1048576)) = (26214395 / 262144 :: real)
   \<and> (6553599 / 65536 :: real) \<noteq> 26214395 / 262144"
  by (simp add: search_similar_diseases_def index_search_def fvec_L2sqr_def py_getitem_def
        ex_near_def ex_flu_def confidence_near)

section \<open>Deduplication and ranking\<close>

text \<open>
  Claim C4. The deduplication loop of \<^verbatim>\<open>diagnose\<close> keeps one entry per disease name,
  names compared as strings (so case-sensitively): the names kept are exactly the names of
  the hits, and the entry kept for a name is a hit of that name whose confidence no other
  hit of that name exceeds. Of two hits of one name with confidences 80 and 40, in either
  order, the one with 80 is kept.
\<close>

theorem dedup_keeps_best:
  "distinct (map fst (unique_diseases hits))
   \<and> fst ` set (unique_diseases hits) = h_disease ` set hits
   \<and> (\<forall>(name, h) \<in> set (unique_diseases hits).
         h \<in> set hits \<and> h_disease h = name
       \<and> (\<forall>h' \<in> set hits. h_disease h' = name \<longrightarrow> h_confidence h' \<le> h_confidence h))
   \<and> (h_disease a = h_disease b \<and> h_confidence a = 80 \<and> h_confidence b = 40 \<longrightarrow>
         unique_diseases [a, b] = [(h_disease a, a)]
       \<and> unique_diseases [b, a] = [(h_disease a, a)])"
proof (intro conjI)
  show "distinct (map fst (unique_diseases hits))" by (rule distinct_unique_diseases)
  show "fst ` set (unique_diseases hits) = h_disease ` set hits" by (rule unique_diseases_names)
  show "\<forall>(name, h) \<in> set (unique_diseases hits).
         h \<in> set hits \<and> h_disease h = name
       \<and> (\<forall>h' \<in> set hits. h_disease h' = name \<longrightarrow> h_confidence h' \<le> h_confidence h)"
    using unique_diseases_mem by blast
  show "h_disease a = h_disease b \<and> h_confidence a = 80 \<and> h_confidence b = 40 \<longrightarrow>
         unique_diseases [a, b] = [(h_disease a, a)]
       \<and> unique_diseases [b, a] = [(h_disease a, a)]"
    by (simp add: unique_diseases_def dedup_step_def)
qed

theorem dedup_keeps_best_witness:
  "unique_diseases [ex_hit ''Flu'' 40, ex_hit ''flu'' 60, ex_hit ''Flu'' 80]
     = [(''Flu'', ex_hit ''Flu'' 80), (''flu'', ex_hit ''flu'' 60)]
   \<and> unique_diseases [ex_hit ''Flu'' 80, ex_hit ''Flu'' 40] = [(''Flu'', ex_hit ''Flu'' 80)]"
proof -
  have a: "h_disease (ex_hit ''Flu'' 80) = h_disease (ex_hit ''Flu'' 40)
       \<and> h_confidence (ex_hit ''Flu'' 80) = 80 \<and> h_confidence (ex_hit ''Flu'' 40) = 40"
    by (simp add: ex_hit_def)
  have b: "unique_diseases [ex_hit ''Flu'' 40, ex_hit ''flu'' 60, ex_hit ''Flu'' 80]
     = [(''Flu'', ex_hit ''Flu'' 80), (''flu'', ex_hit ''flu'' 60)]"
    by (simp add: unique_diseases_def dedup_step_def Let_def ex_hit_def)
  from dedup_keeps_best[of "[]" "ex_hit ''Flu'' 80" "ex_hit ''Flu'' 40"] a b
  show ?thesis by (simp add: ex_hit_def)
qed

text \<open>
  Claim C6. The ranking step sorts the deduplicated hits by confidence, highest first; it
  is a permutation of them, and the hits of any one confidence keep the order the
  deduplication step left them in.
\<close>

theorem rank_by_confidence_stable:
  "sorted_wrt (\<lambda>x y. h_confidence x \<ge> h_confidence y) (sorted_diseases u)
   \<and> mset (sorted_diseases u) = mset (map snd u)
   \<and> (\<forall>c. filter (\<lambda>h. h_confidence h = c) (sorted_diseases u)
           = filter (\<lambda>h. h_confidence h = c) (map snd u))"
proof (intro conjI allI)
  have "sorted (map (\<lambda>x. - h_confidence x) (sorted_diseases u))"
    unfolding sorted_diseases_def by (rule sorted_sort_key)
  then show "sorted_wrt (\<lambda>x y. h_confidence x \<ge> h_confidence y) (sorted_diseases u)"
    by (simp add: sorted_wrt_map)
  show "mset (sorted_diseases u) = mset (map snd u)"
    unfolding sorted_diseases_def by simp
  fix c
  have "filter (\<lambda>h. - h_confidence h = - c) (sorted_diseases u)
          = filter (\<lambda>h. - h_confidence h = - c) (map snd u)"
    unfolding sorted_diseases_def by (rule sort_key_stable)
  then show "filter (\<lambda>h. h_confidence h = c) (sorted_diseases u)
           = filter (\<lambda>h. h_confidence h = c) (map snd u)" by simp
qed

theorem rank_by_confidence_stable_witness:
  "sorted_diseases [(''A'', ex_hit ''A'' 50), (''B'', ex_hit ''B'' 70), (''C'', ex_hit ''C'' 50)]
     = [ex_hit ''B'' 70, ex_hit ''A'' 50, ex_hit ''C'' 50]
   \<and> filter (\<lambda>h. h_confidence h = 50)
        (sorted_diseases [(''A'', ex_hit ''A'' 50), (''B'', ex_hit ''B'' 70), (''C'', ex_hit ''C'' 50)])
     = [ex_hit ''A'' 50, ex_hit ''C'' 50]"
proof -
  have "sorted_diseases [(''A'', ex_hit ''A'' 50), (''B'', ex_hit ''B'' 70), (''C'', ex_hit ''C'' 50)]
     = [ex_hit ''B'' 70, ex_hit ''A'' 50, ex_hit ''C'' 50]"
    by (simp add: sorted_diseases_def ex_hit_def)
  with rank_by_confidence_stable[of "[(''A'', ex_hit ''A'' 50), (''B'', ex_hit ''B'' 70), (''C'', ex_hit ''C'' 50)]"]
  show ?thesis by (simp add: ex_hit_def)
qed


section \<open>Searching an index with fewer vectors than asked for\<close>





text \<open>
  Claim C2, at an index of two vectors searched with \<open>k = 3\<close>: the guard
  \<^verbatim>\<open>idx < len(self.metadata)\<close> lets the label \<open>-1\<close> of the unfilled slot through, and
  \<^verbatim>\<open>self.metadata[-1]\<close> is the last entry, so three hits are returned, the third for
  no stored vector.
\<close>

theorem search_beyond_index_size:
  "ntotal (self_index ex_diagnoser) = 2
   \<and> length (self_metadata ex_diagnoser) = 2
   \<and> search_similar_diseases ex_diagnoser [0, 0] 3
       = Inr [\<lparr>h_disease = ''Flu'', h_symptoms = [''fever'', ''cough''],
                h_confidence = 80, h_distance = 1\<rparr>,
              \<lparr>h_disease = ''Migraine'', h_symptoms = [''headache'', ''nausea''],
                h_confidence = 20, h_distance = 4\<rparr>,
              \<lparr>h_disease = ''Migraine'', h_symptoms = [''headache'', ''nausea''],
                h_confidence = 0, h_distance = FLT_MAX\<rparr>]"
  by (simp add: ex_diagnoser_def ex_flu_def ex_migraine_def ntotal_def
        search_similar_diseases_def index_search_def fvec_L2sqr_def py_getitem_def
        confidence_1 confidence_4 confidence_FLT_MAX)

section \<open>Assembling the diagnoses\<close>

lemma get_complete_disease_info_first:
  assumes "get_complete_disease_info md n = Some m"
  shows "\<exists>i < length md. md ! i = m \<and> lower (disease m) = lower n
           \<and> (\<forall>j < i. lower (disease (md ! j)) \<noteq> lower n)"
  using assms by (auto simp: get_complete_disease_info_def find_Some_iff)

lemma lower_examples:
  "lower ''FLU'' = ''flu''" "lower ''Flu'' = ''flu''" "lower ''Migraine'' = ''migraine''"
  "lower [CHR 0xC9, CHR ''t'', CHR 0xC9] = [CHR 0xE9, CHR ''t'', CHR 0xE9]"
  "lower [CHR 0xD7, CHR 0xDF, CHR ''@'', CHR ''[''] = [CHR 0xD7, CHR 0xDF, CHR ''@'', CHR ''['']"
  by code_simp+

text \<open>
  Claim C10. Every diagnosis returned by \<^verbatim>\<open>diagnose\<close> carries the disease, symptoms,
  medicines and precautions of the earliest metadata entry whose name equals, after
  lower-casing both, the name of one of the ranked deduplicated hits. Lower-casing folds
  \<open>FLU\<close> and \<open>Flu\<close> to \<open>flu\<close> (and the accented capitals of Latin-1 to their small
  letters) and keeps other names apart. Two names that differ in letter case only
  therefore resolve to the same entry, and \<^verbatim>\<open>diagnose\<close> can return two diagnoses with
  identical record fields: on the metadata table \<open>Migraine\<close>, \<open>Flu\<close>, \<open>FLU\<close> the hits
  named \<open>Flu\<close> and \<open>FLU\<close> both come back with the fields of the second entry, and the hit
  named \<open>Migraine\<close> with those of the first.
\<close>

theorem diagnosis_fields_from_first_match:
  "(diagnose self q k = Inr ds \<and> dx \<in> set ds \<longrightarrow>
      (\<exists>hits h i. search_similar_diseases self q k = Inr hits
         \<and> h \<in> set (take 3 (sorted_diseases (unique_diseases hits)))
         \<and> i < length (self_metadata self)
         \<and> lower (disease (self_metadata self ! i)) = lower (h_disease h)
         \<and> (\<forall>j < i. lower (disease (self_metadata self ! j)) \<noteq> lower (h_disease h))
         \<and> dx_disease dx = disease (self_metadata self ! i)
         \<and> dx_symptoms dx = symptoms (self_metadata self ! i)
         \<and> dx_medicines dx = medicines (self_metadata self ! i)
         \<and> dx_precautions dx = precautions (self_metadata self ! i)))
   \<and> (lower n = lower n' \<longrightarrow>
         get_complete_disease_info md n = get_complete_disease_info md n')
   \<and> lower ''FLU'' = ''flu'' \<and> lower ''Flu'' = ''flu'' \<and> lower ''Migraine'' = ''migraine''
   \<and> lower [CHR 0xC9, CHR ''t'', CHR 0xC9] = [CHR 0xE9, CHR ''t'', CHR 0xE9]
   \<and> search_similar_diseases ex_case_diagnoser [0, 0] 3
        = Inr [\<lparr>h_disease = ''Flu'', h_symptoms = [''fever'', ''cough''],
                 h_confidence = 80, h_distance = 1\<rparr>,
               \<lparr>h_disease = ''FLU'', h_symptoms = [''chills''],
                 h_confidence = 20, h_distance = 4\<rparr>,
               \<lparr>h_disease = ''Migraine'', h_symptoms = [''headache'', ''nausea''],
                 h_confidence = 0, h_distance = 50\<rparr>]
   \<and> diagnose ex_case_diagnoser [0, 0] 3
        = Inr [\<lparr>dx_disease = ''Flu'', dx_symptoms = [''fever'', ''cough''],
                 dx_medicines = [''Paracetamol''], dx_precautions = [''Rest''],
                 dx_confidence = 80\<rparr>,
               \<lparr>dx_disease = ''Flu'', dx_symptoms = [''fever'', ''cough''],
                 dx_medicines = [''Paracetamol''], dx_precautions = [''Rest''],
                 dx_confidence = 20\<rparr>,
               \<lparr>dx_disease = ''Migraine'', dx_symptoms = [''headache'', ''nausea''],
                 dx_medicines = [], dx_precautions = [''Avoid light''],
                 dx_confidence = 0\<rparr>]"
proof (intro conjI impI)
  assume a: "diagnose self q k = Inr ds \<and> dx \<in> set ds"
  then obtain hits where s: "search_similar_diseases self q k = Inr hits"
    and ds: "ds = final_diagnoses (self_metadata self)
                    (take 3 (sorted_diseases (unique_diseases hits)))"
    by (auto simp: diagnose_def split: sum.splits)
  from a ds final_diagnoses_origin[of dx "self_metadata self"
       "take 3 (sorted_diseases (unique_diseases hits))"]
  obtain h m where hr: "h \<in> set (take 3 (sorted_diseases (unique_diseases hits)))"
    and g: "get_complete_disease_info (self_metadata self) (h_disease h) = Some m"
    and dx: "dx = \<lparr>dx_disease = disease m, dx_symptoms = symptoms m,
                   dx_medicines = medicines m, dx_precautions = precautions m,
                   dx_confidence = min 95 (h_confidence h)\<rparr>"
    by blast
  from get_complete_disease_info_first[OF g] obtain i where
    i: "i < length (self_metadata self)" "self_metadata self ! i = m"
       "lower (disease m) = lower (h_disease h)"
       "\<forall>j < i. lower (disease (self_metadata self ! j)) \<noteq> lower (h_disease h)"
    by blast
  from dx i(2) have f: "dx_disease dx = disease (self_metadata self ! i)"
      "dx_symptoms dx = symptoms (self_metadata self ! i)"
      "dx_medicines dx = medicines (self_metadata self ! i)"
      "dx_precautions dx = precautions (self_metadata self ! i)"
    by simp_all
  from i(2,3) have l: "lower (disease (self_metadata self ! i)) = lower (h_disease h)" by simp
  from s hr i(1) l i(4) f
  show "\<exists>hits h i. search_similar_diseases self q k = Inr hits
         \<and> h \<in> set (take 3 (sorted_diseases (unique_diseases hits)))
         \<and> i < length (self_metadata self)
         \<and> lower (disease (self_metadata self ! i)) = lower (h_disease h)
         \<and> (\<forall>j < i. lower (disease (self_metadata self ! j)) \<noteq> lower (h_disease h))
         \<and> dx_disease dx = disease (self_metadata self ! i)
         \<and> dx_symptoms dx = symptoms (self_metadata self ! i)
         \<and> dx_medicines dx = medicines (self_metadata self ! i)
         \<and> dx_precautions dx = precautions (self_metadata self ! i)"
    by blast
next
  assume "lower n = lower n'"
  then show "get_complete_disease_info md n = get_complete_disease_info md n'"
    by (simp add: get_complete_disease_info_def)
next
  show "lower ''FLU'' = ''flu''" "lower ''Flu'' = ''flu''" "lower ''Migraine'' = ''migraine''"
    "lower [CHR 0xC9, CHR ''t'', CHR 0xC9] = [CHR 0xE9, CHR ''t'', CHR 0xE9]"
    by (rule lower_examples)+
next
  let ?hits = "[\<lparr>h_disease = ''Flu'', h_symptoms = [''fever'', ''cough''],
                 h_confidence = 80, h_distance = 1\<rparr>,
               \<lparr>h_disease = ''FLU'', h_symptoms = [''chills''],
                 h_confidence = 20, h_distance = 4\<rparr>,
               \<lparr>h_disease = ''Migraine'', h_symptoms = [''headache'', ''nausea''],
                 h_confidence = 0, h_distance = 50\<rparr>]"
  show s: "search_similar_diseases ex_case_diagnoser [0, 0] 3 = Inr ?hits"
    by (simp add: ex_case_diagnoser_def ex_flu_def ex_flu_upper_def ex_migraine_def
          search_similar_diseases_def index_search_def fvec_L2sqr_def py_getitem_def
          confidence_1 confidence_4 confidence_50)
  have r: "take 3 (sorted_diseases (unique_diseases ?hits)) = ?hits"
    by (simp add: unique_diseases_def dedup_step_def Let_def sorted_diseases_def)
  show "diagnose ex_case_diagnoser [0, 0] 3
        = Inr [\<lparr>dx_disease = ''Flu'', dx_symptoms = [''fever'', ''cough''],
                 dx_medicines = [''Paracetamol''], dx_precautions = [''Rest''],
                 dx_confidence = 80\<rparr>,
               \<lparr>dx_disease = ''Flu'', dx_symptoms = [''fever'', ''cough''],
                 dx_medicines = [''Paracetamol''], dx_precautions = [''Rest''],
                 dx_confidence = 20\<rparr>,
               \<lparr>dx_disease = ''Migraine'', dx_symptoms = [''headache'', ''nausea''],
                 dx_medicines = [], dx_precautions = [''Avoid light''],
                 dx_confidence = 0\<rparr>]"
    unfolding diagnose_def s by (simp add: r) code_simp
qed

theorem diagnosis_fields_from_first_match_witness:
  "diagnose ex_case_diagnoser [0, 0] 3
     = Inr [\<lparr>dx_disease = ''Flu'', dx_symptoms = [''fever'', ''cough''],
              dx_medicines = [''Paracetamol''], dx_precautions = [''Rest''],
              dx_confidence = 80\<rparr>,
            \<lparr>dx_disease = ''Flu'', dx_symptoms = [''fever'', ''cough''],
              dx_medicines = [''Paracetamol''], dx_precautions = [''Rest''],
              dx_confidence = 20\<rparr>,
            \<lparr>dx_disease = ''Migraine'', dx_symptoms = [''headache'', ''nausea''],
              dx_medicines = [], dx_precautions = [''Avoid light''],
              dx_confidence = 0\<rparr>]
   \<and> (\<exists>h i. h \<in> set [\<lparr>h_disease = ''Flu'', h_symptoms = [''fever'', ''cough''],
                          h_confidence = 80, h_distance = 1\<rparr>,
                        \<lparr>h_disease = ''FLU'', h_symptoms = [''chills''],
                          h_confidence = 20, h_distance = 4\<rparr>,
                        \<lparr>h_disease = ''Migraine'', h_symptoms = [''headache'', ''nausea''],
                          h_confidence = 0, h_distance = 50\<rparr>]
         \<and> i < length (self_metadata ex_case_diagnoser)
         \<and> lower (disease (self_metadata ex_case_diagnoser ! i)) = lower (h_disease h)
         \<and> (\<forall>j < i. lower (disease (self_metadata ex_case_diagnoser ! j)) \<noteq> lower (h_disease h))
         \<and> disease (self_metadata ex_case_diagnoser ! i) = ''Flu''
         \<and> symptoms (self_metadata ex_case_diagnoser ! i) = [''fever'', ''cough''])
   \<and> self_metadata ex_case_diagnoser ! 1 = ex_flu
   \<and> get_complete_disease_info (self_metadata ex_case_diagnoser) ''FLU'' = Some ex_flu
   \<and> get_complete_disease_info (self_metadata ex_case_diagnoser) ''FLU''
       = get_complete_disease_info (self_metadata ex_case_diagnoser) ''Flu''"
proof -
  let ?hits = "[\<lparr>h_disease = ''Flu'', h_symptoms = [''fever'', ''cough''],
                 h_confidence = 80, h_distance = 1\<rparr>,
               \<lparr>h_disease = ''FLU'', h_symptoms = [''chills''],
                 h_confidence = 20, h_distance = 4\<rparr>,
               \<lparr>h_disease = ''Migraine'', h_symptoms = [''headache'', ''nausea''],
                 h_confidence = 0, h_distance = (50::real)\<rparr>]"
  let ?dx2 = "\<lparr>dx_disease = ''Flu'', dx_symptoms = [''fever'', ''cough''],
              dx_medicines = [''Paracetamol''], dx_precautions = [''Rest''],
              dx_confidence = (20::real)\<rparr>"
  let ?ds = "[\<lparr>dx_disease = ''Flu'', dx_symptoms = [''fever'', ''cough''],
              dx_medicines = [''Paracetamol''], dx_precautions = [''Rest''],
              dx_confidence = 80\<rparr>, ?dx2,
            \<lparr>dx_disease = ''Migraine'', dx_symptoms = [''headache'', ''nausea''],
              dx_medicines = [], dx_precautions = [''Avoid light''],
              dx_confidence = 0\<rparr>]"
  note t = diagnosis_fields_from_first_match[of ex_case_diagnoser "[0, 0]" 3 ?ds ?dx2
         "''FLU''" "''Flu''" "self_metadata ex_case_diagnoser"]
  from t have d: "diagnose ex_case_diagnoser [0, 0] 3 = Inr ?ds" by (elim conjE)
  from t have s: "search_similar_diseases ex_case_diagnoser [0, 0] 3 = Inr ?hits" by (elim conjE)
  have r: "take 3 (sorted_diseases (unique_diseases ?hits)) = ?hits"
    by (simp add: unique_diseases_def dedup_step_def Let_def sorted_diseases_def)
  have in_ds: "?dx2 \<in> set ?ds" by simp
  from t d in_ds obtain hits h i where
    "search_similar_diseases ex_case_diagnoser [0, 0] 3 = Inr hits"
    "h \<in> set (take 3 (sorted_diseases (unique_diseases hits)))"
    "i < length (self_metadata ex_case_diagnoser)"
    "lower (disease (self_metadata ex_case_diagnoser ! i)) = lower (h_disease h)"
    "\<forall>j < i. lower (disease (self_metadata ex_case_diagnoser ! j)) \<noteq> lower (h_disease h)"
    "dx_disease ?dx2 = disease (self_metadata ex_case_diagnoser ! i)"
    "dx_symptoms ?dx2 = symptoms (self_metadata ex_case_diagnoser ! i)"
    by blast
  with s r have e: "\<exists>h i. h \<in> set ?hits
         \<and> i < length (self_metadata ex_case_diagnoser)
         \<and> lower (disease (self_metadata ex_case_diagnoser ! i)) = lower (h_disease h)
         \<and> (\<forall>j < i. lower (disease (self_metadata ex_case_diagnoser ! j)) \<noteq> lower (h_disease h))
         \<and> disease (self_metadata ex_case_diagnoser ! i) = ''Flu''
         \<and> symptoms (self_metadata ex_case_diagnoser ! i) = [''fever'', ''cough'']"
    by (intro exI[of _ h] exI[of _ i]) simp
  have m: "self_metadata ex_case_diagnoser ! 1 = ex_flu" by (simp add: ex_case_diagnoser_def)
  have g: "get_complete_disease_info (self_metadata ex_case_diagnoser) ''FLU'' = Some ex_flu"
    by code_simp
  from t have "lower ''FLU'' = lower ''Flu''" by simp
  with t have q: "get_complete_disease_info (self_metadata ex_case_diagnoser) ''FLU''
       = get_complete_disease_info (self_metadata ex_case_diagnoser) ''Flu''" by blast
  show ?thesis by (intro conjI d e m g q)
qed

section \<open>The document synthesizer\<close>

text \<open>
  Claim C5. For every disease record the variations are the comprehensive document first,
  then the symptoms document if and only if there are symptoms, the treatment document if
  and only if there are medicines, and the prevention document if and only if there are
  precautions, in this order. That makes between one and four documents: four when the
  three lists are all non-empty, and only the comprehensive one, which is then the
  disease line alone, when they are all empty.
\<close>

theorem doc_variations_views:
  "doc_variations r
     = comprehensive_doc r
       # (if symptoms r \<noteq> [] then [symptoms_doc r] else [])
       @ (if medicines r \<noteq> [] then [treatment_doc r] else [])
       @ (if precautions r \<noteq> [] then [prevention_doc r] else [])
   \<and> length (doc_variations r)
       = 1 + (if symptoms r \<noteq> [] then 1 else 0) + (if medicines r \<noteq> [] then 1 else 0)
           + (if precautions r \<noteq> [] then 1 else 0)
   \<and> 1 \<le> length (doc_variations r) \<and> length (doc_variations r) \<le> 4
   \<and> (symptoms r \<noteq> [] \<and> medicines r \<noteq> [] \<and> precautions r \<noteq> []
        \<longrightarrow> length (doc_variations r) = 4)
   \<and> (symptoms r = [] \<and> medicines r = [] \<and> precautions r = []
        \<longrightarrow> doc_variations r = [''DISEASE: '' @ disease r @ ''.''])"
  by (simp add: doc_variations_def comprehensive_doc_def Let_def)

theorem doc_variations_views_witness:
  "doc_variations ex_flu
     = [''DISEASE: Flu. SYMPTOMS: fever, cough. MEDICINES: Paracetamol. PRECAUTIONS: Rest.'',
        ''Flu SYMPTOMS: fever, cough. Common signs include fever, cough.'',
        ''Flu TREATMENT: Medications include Paracetamol. Paracetamol are commonly prescribed.'',
        ''Flu PREVENTION: Rest. Recommended precautions: Rest.'']
   \<and> length (doc_variations ex_migraine) = 3
   \<and> doc_variations \<lparr>disease = ''Flu'', symptoms = [], medicines = [], precautions = []\<rparr>
       = [''DISEASE: Flu.'']"
proof -
  have a: "symptoms ex_flu \<noteq> [] \<and> medicines ex_flu \<noteq> [] \<and> precautions ex_flu \<noteq> []"
    by (simp add: ex_flu_def)
  have b: "comprehensive_doc ex_flu
      = ''DISEASE: Flu. SYMPTOMS: fever, cough. MEDICINES: Paracetamol. PRECAUTIONS: Rest.''"
    by (simp add: comprehensive_doc_def ex_flu_def)
  have c: "symptoms_doc ex_flu = ''Flu SYMPTOMS: fever, cough. Common signs include fever, cough.''"
    by (simp add: symptoms_doc_def ex_flu_def)
  have d: "treatment_doc ex_flu
      = ''Flu TREATMENT: Medications include Paracetamol. Paracetamol are commonly prescribed.''"
    by (simp add: treatment_doc_def ex_flu_def)
  have e: "prevention_doc ex_flu = ''Flu PREVENTION: Rest. Recommended precautions: Rest.''"
    by (simp add: prevention_doc_def ex_flu_def)
  have f: "symptoms ex_migraine \<noteq> [] \<and> medicines ex_migraine = [] \<and> precautions ex_migraine \<noteq> []"
    by (simp add: ex_migraine_def)
  from doc_variations_views[of ex_flu] doc_variations_views[of ex_migraine]
    doc_variations_views[of "\<lparr>disease = ''Flu'', symptoms = [], medicines = [], precautions = []\<rparr>"]
    a b c d e f
  show ?thesis by (simp add: comprehensive_doc_def)
qed


section \<open>Loading the store\<close>

text \<open>
  Claim C7, as amended. \<^verbatim>\<open>load_faiss_index\<close> fails when the folder or one of the three
  files is missing: with \<^verbatim>\<open>FileNotFoundError\<close> for the folder, the documents file and
  the metadata file, with the \<^verbatim>\<open>RuntimeError\<close> of FAISS for the vector file, the first
  one missing in the order folder, vectors, documents, metadata deciding. It fails as well
  when a file is there but cannot be decoded. It compares no sizes: when the folder and
  the three files are there and readable, it succeeds with the three tables as they are
  stored, whatever their lengths.
\<close>

theorem load_error_mapping:
  "(\<not> folder_exists st \<longrightarrow> load_faiss_index st = Inl FileNotFoundError)
   \<and> (folder_exists st \<and> index_file st = Missing \<longrightarrow>
         load_faiss_index st = Inl RuntimeError)
   \<and> (folder_exists st \<and> index_file st = Stored ix \<and> docs_file st = Missing \<longrightarrow>
         load_faiss_index st = Inl FileNotFoundError)
   \<and> (folder_exists st \<and> index_file st = Stored ix \<and> docs_file st = Stored docs
        \<and> metadata_file st = Missing \<longrightarrow>
         load_faiss_index st = Inl FileNotFoundError)
   \<and> (folder_exists st \<and> index_file st = Unreadable \<longrightarrow>
         load_faiss_index st = Inl RuntimeError)
   \<and> (folder_exists st \<and> index_file st = Stored ix \<and> docs_file st = Unreadable \<longrightarrow>
         load_faiss_index st = Inl UnpicklingError)
   \<and> (folder_exists st \<and> index_file st = Stored ix \<and> docs_file st = Stored docs
        \<and> metadata_file st = Unreadable \<longrightarrow>
         load_faiss_index st = Inl UnpicklingError)
   \<and> (folder_exists st \<and> index_file st = Stored ix \<and> docs_file st = Stored docs
        \<and> metadata_file st = Stored md \<longrightarrow>
         load_faiss_index st
           = Inr \<lparr>self_index = ix, self_documents = docs, self_metadata = md\<rparr>)
   \<and> ((\<exists>dg. load_faiss_index st = Inr dg) \<longleftrightarrow>
         folder_exists st \<and> (\<exists>ix. index_file st = Stored ix)
       \<and> (\<exists>docs. docs_file st = Stored docs) \<and> (\<exists>md. metadata_file st = Stored md))"
  by (auto simp: load_faiss_index_def split: artifact.splits)

theorem load_error_mapping_witness:
  "load_faiss_index ex_no_store = Inl FileNotFoundError
   \<and> load_faiss_index (ex_no_store\<lparr>folder_exists := True\<rparr>) = Inl RuntimeError
   \<and> load_faiss_index ex_store_truncated = Inl UnpicklingError
   \<and> load_faiss_index (ex_store_truncated\<lparr>metadata_file := Missing\<rparr>) = Inl FileNotFoundError
   \<and> load_faiss_index (ex_store_truncated\<lparr>metadata_file := Stored [ex_flu]\<rparr>)
       = Inr \<lparr>self_index = \<lparr>ix_d = 2, ix_xb = [[1, 0]]\<rparr>,
              self_documents = [''DISEASE: Flu.''], self_metadata = [ex_flu]\<rparr>"
proof -
  let ?ix = "\<lparr>ix_d = 2, ix_xb = [[1, 0 :: real]]\<rparr>"
  let ?docs = "[''DISEASE: Flu.'']"
  have a: "\<not> folder_exists ex_no_store" by (simp add: ex_no_store_def)
  have b: "folder_exists (ex_no_store\<lparr>folder_exists := True\<rparr>)
      \<and> index_file (ex_no_store\<lparr>folder_exists := True\<rparr>) = Missing"
    by (simp add: ex_no_store_def)
  have c: "folder_exists ex_store_truncated \<and> index_file ex_store_truncated = Stored ?ix
      \<and> docs_file ex_store_truncated = Stored ?docs
      \<and> metadata_file ex_store_truncated = Unreadable"
    by (simp add: ex_store_truncated_def)
  have d: "folder_exists (ex_store_truncated\<lparr>metadata_file := Missing\<rparr>)
      \<and> index_file (ex_store_truncated\<lparr>metadata_file := Missing\<rparr>) = Stored ?ix
      \<and> docs_file (ex_store_truncated\<lparr>metadata_file := Missing\<rparr>) = Stored ?docs
      \<and> metadata_file (ex_store_truncated\<lparr>metadata_file := Missing\<rparr>) = Missing"
    by (simp add: ex_store_truncated_def)
  have e: "folder_exists (ex_store_truncated\<lparr>metadata_file := Stored [ex_flu]\<rparr>)
      \<and> index_file (ex_store_truncated\<lparr>metadata_file := Stored [ex_flu]\<rparr>) = Stored ?ix
      \<and> docs_file (ex_store_truncated\<lparr>metadata_file := Stored [ex_flu]\<rparr>) = Stored ?docs
      \<and> metadata_file (ex_store_truncated\<lparr>metadata_file := Stored [ex_flu]\<rparr>) = Stored [ex_flu]"
    by (simp add: ex_store_truncated_def)
  from load_error_mapping[of ex_no_store ?ix ?docs "[]"] a
  have 1: "load_faiss_index ex_no_store = Inl FileNotFoundError" by simp
  from load_error_mapping[of "ex_no_store\<lparr>folder_exists := True\<rparr>" ?ix ?docs "[]"] b
  have 2: "load_faiss_index (ex_no_store\<lparr>folder_exists := True\<rparr>) = Inl RuntimeError"
    by simp
  from load_error_mapping[of ex_store_truncated ?ix ?docs "[]"] c
  have 3: "load_faiss_index ex_store_truncated = Inl UnpicklingError" by simp
  from load_error_mapping[of "ex_store_truncated\<lparr>metadata_file := Missing\<rparr>" ?ix ?docs "[]"] d
  have 4: "load_faiss_index (ex_store_truncated\<lparr>metadata_file := Missing\<rparr>)
             = Inl FileNotFoundError" by simp
  from load_error_mapping[of "ex_store_truncated\<lparr>metadata_file := Stored [ex_flu]\<rparr>"
         ?ix ?docs "[ex_flu]"] e
  have 5: "load_faiss_index (ex_store_truncated\<lparr>metadata_file := Stored [ex_flu]\<rparr>)
       = Inr \<lparr>self_index = ?ix, self_documents = ?docs, self_metadata = [ex_flu]\<rparr>"
    by simp
  show ?thesis by (intro conjI 1 2 3 4 5)
qed

text \<open>
  Claim C7 as stated fails: a folder with two vectors, one document and no metadata entry
  loads.
\<close>

theorem load_accepts_mismatched_sizes:
  "load_faiss_index ex_store_mismatch
     = Inr \<lparr>self_index = \<lparr>ix_d = 2, ix_xb = [[1, 0], [0, 2]]\<rparr>,
            self_documents = [''DISEASE: Flu.''], self_metadata = []\<rparr>
   \<and> ntotal \<lparr>ix_d = 2, ix_xb = [[1, 0], [0, 2]]\<rparr> = 2
   \<and> length [''DISEASE: Flu.''] = 1"
  by (simp add: load_faiss_index_def ex_store_mismatch_def ntotal_def)

section \<open>Building the knowledge base and the index\<close>

lemma add_variation_eq:
  "add_variation r doc (ds, ms) = (ds @ [doc], ms @ [r])"
  by (simp add: add_variation_def)

lemma fold_add_variation:
  "fold (add_variation r) docs (ds, ms) = (ds @ docs, ms @ replicate (length docs) r)"
proof (induction docs arbitrary: ds ms)
  case Nil
  show ?case by simp
next
  case (Cons doc docs)
  show ?case
    by (simp add: add_variation_eq Cons.IH replicate_app_Cons_same)
qed

lemma add_disease_eq:
  "add_disease r (ds, ms) = (ds @ doc_variations r, ms @ replicate (length (doc_variations r)) r)"
  unfolding add_disease_def by (rule fold_add_variation)

lemma fold_add_disease:
  "fold add_disease rs (ds, ms)
     = (ds @ concat (map doc_variations rs),
        ms @ concat (map (\<lambda>r. replicate (length (doc_variations r)) r) rs))"
proof (induction rs arbitrary: ds ms)
  case Nil
  show ?case by simp
next
  case (Cons r rs)
  show ?case by (simp add: add_disease_eq Cons.IH)
qed

lemma zip_replicate_right: "zip xs (replicate (length xs) r) = map (\<lambda>x. (x, r)) xs"
  by (induction xs) simp_all

lemma length_tables:
  "length (concat (map doc_variations rs))
     = length (concat (map (\<lambda>r. replicate (length (doc_variations r)) r) rs))"
  by (induction rs) simp_all

lemma zip_tables:
  "zip (concat (map doc_variations rs))
       (concat (map (\<lambda>r. replicate (length (doc_variations r)) r) rs))
     = concat (map (\<lambda>r. map (\<lambda>doc. (doc, r)) (doc_variations r)) rs)"
  by (induction rs) (simp_all add: zip_replicate_right)

lemma encode_rows:
  "encode e ts = Some vs \<Longrightarrow> length vs = length ts \<and> map Some vs = map (embed e) ts"
  by (induction ts arbitrary: vs) (auto split: option.splits)

lemma create_knowledge_base_tables:
  assumes "create_knowledge_base hf = Inr (docs, md)"
  shows "docs = concat (map doc_variations (parse_health_file hf))
       \<and> md = concat (map (\<lambda>r. replicate (length (doc_variations r)) r) (parse_health_file hf))"
  using assms
  by (auto simp: create_knowledge_base_def Let_def fold_add_disease split: if_splits)

text \<open>
  Claim C8, as amended. When the health file is readable and yields no valid record,
  \<^verbatim>\<open>create_faiss_index\<close> raises nothing: it returns the boolean \<^verbatim>\<open>False\<close> and leaves
  the store as it was, so no index, empty or not, is written.
\<close>

theorem zero_records_returns_false:
  assumes "check_file hf" and "parse_health_file hf = []"
  shows "create_faiss_index e hf st = Inr (False, st)"
  using assms by (simp add: create_faiss_index_def create_knowledge_base_def)

theorem zero_records_returns_false_witness:
  "check_file (Diseases []) \<and> parse_health_file (Diseases []) = []
   \<and> create_faiss_index ex_embedder (Diseases []) ex_store_mismatch
       = Inr (False, ex_store_mismatch)"
proof -
  have a: "check_file (Diseases [])" by simp
  have b: "parse_health_file (Diseases []) = []" by simp
  from zero_records_returns_false[OF a b, of ex_embedder ex_store_mismatch] a b
  show ?thesis by simp
qed

text \<open>
  Claim C8 as stated fails: on a health file whose only entry has a blank name the build
  returns \<^verbatim>\<open>False\<close>, a value and not an exception.
\<close>

theorem zero_records_untyped_failure:
  "parse_health_file ex_blank_file = []
   \<and> create_faiss_index ex_embedder ex_blank_file ex_no_store = Inr (False, ex_no_store)"
  by code_simp

text \<open>
  Claim C9. After a build that returns \<^verbatim>\<open>True\<close> the store holds the three files, with as
  many vectors as documents as metadata entries; position by position, the metadata entry
  is the parsed record whose variation the document is, and the vector is the embedding of
  the document. Nothing but the position joins the three tables.
\<close>

theorem build_parallel_tables:
  assumes "create_faiss_index e hf st = Inr (True, st')"
  shows "\<exists>ix docs md.
           folder_exists st' \<and> index_file st' = Stored ix \<and> docs_file st' = Stored docs
         \<and> metadata_file st' = Stored md
         \<and> ntotal ix = length docs \<and> length docs = length md
         \<and> zip docs md
             = concat (map (\<lambda>r. map (\<lambda>doc. (doc, r)) (doc_variations r)) (parse_health_file hf))
         \<and> (\<forall>i < length docs. \<exists>r \<in> set (parse_health_file hf).
                md ! i = r \<and> docs ! i \<in> set (doc_variations r))
         \<and> map Some (ix_xb ix) = map (embed e) docs"
proof -
  from assms obtain docs md where kb: "create_knowledge_base hf = Inr (docs, md)"
    by (auto simp: create_faiss_index_def split: sum.splits)
  from assms kb obtain vs where enc: "encode e docs = Some vs"
    by (auto simp: create_faiss_index_def split: if_splits option.splits)
  from assms kb enc obtain row rows where vs: "vs = row # rows"
    by (cases vs) (auto simp: create_faiss_index_def split: if_splits)
  from assms kb enc vs
  have st': "st' = \<lparr>folder_exists = True,
                    index_file = Stored \<lparr>ix_d = length row, ix_xb = vs\<rparr>,
                    docs_file = Stored docs, metadata_file = Stored md\<rparr>"
    by (auto simp: create_faiss_index_def Let_def split: if_splits)
  let ?rs = "parse_health_file hf"
  from create_knowledge_base_tables[OF kb]
  have docs: "docs = concat (map doc_variations ?rs)"
    and md: "md = concat (map (\<lambda>r. replicate (length (doc_variations r)) r) ?rs)"
    by simp_all
  have len: "length docs = length md" unfolding docs md by (rule length_tables)
  have z: "zip docs md = concat (map (\<lambda>r. map (\<lambda>doc. (doc, r)) (doc_variations r)) ?rs)"
    unfolding docs md by (rule zip_tables)
  have pos: "\<forall>i < length docs. \<exists>r \<in> set ?rs. md ! i = r \<and> docs ! i \<in> set (doc_variations r)"
  proof (intro allI impI)
    fix i assume i: "i < length docs"
    with len have "(docs ! i, md ! i) \<in> set (zip docs md)"
      by (auto simp: set_zip)
    with z show "\<exists>r \<in> set ?rs. md ! i = r \<and> docs ! i \<in> set (doc_variations r)"
      by auto
  qed
  from encode_rows[OF enc] have rows: "length vs = length docs" "map Some vs = map (embed e) docs"
    by simp_all
  show ?thesis
    using st' len z pos rows by (simp add: ntotal_def)
qed

theorem build_parallel_tables_witness:
  "create_faiss_index ex_embedder ex_health_file ex_no_store
     = Inr (True,
        \<lparr>folder_exists = True,
         index_file = Stored \<lparr>ix_d = 2, ix_xb = [[72, 1], [75, 1], [71, 1]]\<rparr>,
         docs_file = Stored
            [''DISEASE: Migraine. SYMPTOMS: headache, nausea. PRECAUTIONS: Avoid light.'',
             ''Migraine SYMPTOMS: headache, nausea. Common signs include headache, nausea.'',
             ''Migraine PREVENTION: Avoid light. Recommended precautions: Avoid light.''],
         metadata_file = Stored [ex_migraine, ex_migraine, ex_migraine]\<rparr>)
   \<and> parse_health_file ex_health_file = [ex_migraine]
   \<and> doc_variations ex_migraine
       = [''DISEASE: Migraine. SYMPTOMS: headache, nausea. PRECAUTIONS: Avoid light.'',
          ''Migraine SYMPTOMS: headache, nausea. Common signs include headache, nausea.'',
          ''Migraine PREVENTION: Avoid light. Recommended precautions: Avoid light.'']"
proof -
  let ?st = "\<lparr>folder_exists = True,
         index_file = Stored \<lparr>ix_d = 2, ix_xb = [[72, 1], [75, 1], [71, 1]]\<rparr>,
         docs_file = Stored
            [''DISEASE: Migraine. SYMPTOMS: headache, nausea. PRECAUTIONS: Avoid light.'',
             ''Migraine SYMPTOMS: headache, nausea. Common signs include headache, nausea.'',
             ''Migraine PREVENTION: Avoid light. Recommended precautions: Avoid light.''],
         metadata_file = Stored [ex_migraine, ex_migraine, ex_migraine]\<rparr>"
  have b: "create_faiss_index ex_embedder ex_health_file ex_no_store = Inr (True, ?st)"
    by code_simp
  have p: "parse_health_file ex_health_file = [ex_migraine]" by code_simp
  from build_parallel_tables[OF b] obtain docs md where
    "docs_file ?st = Stored docs" "metadata_file ?st = Stored md"
    "zip docs md = concat (map (\<lambda>r. map (\<lambda>doc. (doc, r)) (doc_variations r))
                     (parse_health_file ex_health_file))"
    by blast
  with p have "zip [''DISEASE: Migraine. SYMPTOMS: headache, nausea. PRECAUTIONS: Avoid light.'',
             ''Migraine SYMPTOMS: headache, nausea. Common signs include headache, nausea.'',
             ''Migraine PREVENTION: Avoid light. Recommended precautions: Avoid light.'']
            [ex_migraine, ex_migraine, ex_migraine]
          = map (\<lambda>doc. (doc, ex_migraine)) (doc_variations ex_migraine)"
    by simp
  then have "map fst (zip [''DISEASE: Migraine. SYMPTOMS: headache, nausea. PRECAUTIONS: Avoid light.'',
             ''Migraine SYMPTOMS: headache, nausea. Common signs include headache, nausea.'',
             ''Migraine PREVENTION: Avoid light. Recommended precautions: Avoid light.'']
            [ex_migraine, ex_migraine, ex_migraine])
          = map fst (map (\<lambda>doc. (doc, ex_migraine)) (doc_variations ex_migraine))"
    by (rule arg_cong)
  then have "doc_variations ex_migraine
       = [''DISEASE: Migraine. SYMPTOMS: headache, nausea. PRECAUTIONS: Avoid light.'',
          ''Migraine SYMPTOMS: headache, nausea. Common signs include headache, nausea.'',
          ''Migraine PREVENTION: Avoid light. Recommended precautions: Avoid light.'']"
    by (simp add: comp_def)
  with b p show ?thesis by simp
qed


end
